theory Spec2Isabelle
  imports Complex_Main "HOL-Library.Char_ord" "HOL-Library.List_Lexorder"
begin

section \<open>JavaScript values used by the SDK\<close>

text \<open>
  The SDK is TypeScript. Its \<^verbatim>\<open>number\<close>s are IEEE doubles; the model computes with
  exact reals, which agrees with the double computation whenever every intermediate value
  is exactly representable (integer milliseconds and integer factors below \<open>2^53\<close>).
  Quantities that the code prints into a message (\<^verbatim>\<open>timeoutMs\<close>, \<^verbatim>\<open>maxWaitTimeMs\<close>, an HTTP
  status) are integers in the model and are printed in decimal.
  Strings are byte strings: \<^verbatim>\<open>toUpperCase\<close>, \<^verbatim>\<open>trim\<close> and the case-insensitive comparison of
  header names are modelled on ASCII.
\<close>

type_synonym number = real

definition toUpperCase_char :: "char \<Rightarrow> char" where
  "toUpperCase_char c =
     (case map_of (zip ''abcdefghijklmnopqrstuvwxyz'' ''ABCDEFGHIJKLMNOPQRSTUVWXYZ'') c of
        Some u \<Rightarrow> u
      | None \<Rightarrow> c)"

definition toUpperCase :: "string \<Rightarrow> string" where
  "toUpperCase s = map toUpperCase_char s"

definition toLowerCase_char :: "char \<Rightarrow> char" where
  "toLowerCase_char c =
     (case map_of (zip ''ABCDEFGHIJKLMNOPQRSTUVWXYZ'' ''abcdefghijklmnopqrstuvwxyz'') c of
        Some l \<Rightarrow> l
      | None \<Rightarrow> c)"

definition toLowerCase :: "string \<Rightarrow> string" where
  "toLowerCase s = map toLowerCase_char s"

fun startsWith :: "string \<Rightarrow> string \<Rightarrow> bool" where
  "startsWith s [] = True"
| "startsWith [] (p # ps) = False"
| "startsWith (c # cs) (p # ps) = (c = p \<and> startsWith cs ps)"

text \<open>\<^verbatim>\<open>s.includes(p)\<close>: \<open>p\<close> occurs in \<open>s\<close> as a contiguous substring.\<close>

fun includes_str :: "string \<Rightarrow> string \<Rightarrow> bool" where
  "includes_str [] p = (p = [])"
| "includes_str (c # cs) p = (startsWith (c # cs) p \<or> includes_str cs p)"

definition isWhitespace :: "char \<Rightarrow> bool" where
  "isWhitespace c = (c \<in> set [CHR '' '', CHR 0x09, CHR 0x0A, CHR 0x0B, CHR 0x0C, CHR 0x0D])"

definition trim :: "string \<Rightarrow> string" where
  "trim s = rev (dropWhile isWhitespace (rev (dropWhile isWhitespace s)))"

fun digits :: "nat \<Rightarrow> string" where
  "digits n =
     (if n < 10 then [''0123456789'' ! n]
      else digits (n div 10) @ [''0123456789'' ! (n mod 10)])"

declare digits.simps [simp del]

text \<open>The decimal text a template literal produces for an integer-valued number.\<close>

definition toString :: "int \<Rightarrow> string" where
  "toString i = (if i < 0 then CHR ''-'' # digits (nat (- i)) else digits (nat i))"

text \<open>Parsed JSON, as \<^verbatim>\<open>response.json()\<close> and \<^verbatim>\<open>JSON.parse\<close> return it.\<close>

datatype json =
    JNull
  | JBool bool
  | JNumber number
  | JString string
  | JArray "json list"
  | JObject "(string \<times> json) list"

section \<open>Plain objects and the platform's Headers class\<close>

text \<open>
  A \<^verbatim>\<open>Record<string, string>\<close> is a plain object: its keys are compared exactly (case
  matters), an assignment to an existing key replaces the value in place, and a new key is
  added after the others. (Keys that read as array indices, which JavaScript enumerates
  first, are left out of the model.)
\<close>

type_synonym js_record = "(string \<times> string) list"

fun record_assign :: "string \<Rightarrow> string \<Rightarrow> js_record \<Rightarrow> js_record" where
  "record_assign k v [] = [(k, v)]"
| "record_assign k v ((k', v') # kvs) =
     (if k' = k then (k, v) # kvs else (k', v') # record_assign k v kvs)"

definition Object_entries_forEach_assign :: "js_record \<Rightarrow> js_record \<Rightarrow> js_record" where
  "Object_entries_forEach_assign overrides target =
     fold (\<lambda>(key, val) acc. record_assign key val acc) overrides target"

text \<open>
  \<^verbatim>\<open>Headers\<close> is not part of the SDK; it is the class of the Fetch standard, modelled here
  by its header list. Names match byte-case-insensitively. \<^verbatim>\<open>append\<close> adds an entry at the
  end, spelling its name as the first entry of that name does when there is one;
  \<^verbatim>\<open>set\<close> overwrites the first entry of that name and removes the other ones;
  \<^verbatim>\<open>get\<close> joins the values of all entries of that name with a comma and a space;
  constructing from a record appends its entries one by one; iteration yields lower-case
  names in sorted order with the joined value (each \<^verbatim>\<open>set-cookie\<close> value on its own).
  Header names and values are taken to be valid and already stripped of outer whitespace.
\<close>

type_synonym Headers = "(string \<times> string) list"

definition same_name :: "string \<Rightarrow> string \<Rightarrow> bool" where
  "same_name a b = (toLowerCase a = toLowerCase b)"

definition Headers_has :: "string \<Rightarrow> Headers \<Rightarrow> bool" where
  "Headers_has name h = list_ex (\<lambda>(n, v). same_name n name) h"

definition Headers_append :: "string \<Rightarrow> string \<Rightarrow> Headers \<Rightarrow> Headers" where
  "Headers_append name val h =
     (case find (\<lambda>(n, v). same_name n name) h of
        Some (n, v) \<Rightarrow> h @ [(n, val)]
      | None \<Rightarrow> h @ [(name, val)])"

fun Headers_overwrite :: "string \<Rightarrow> string \<Rightarrow> Headers \<Rightarrow> Headers" where
  "Headers_overwrite name val [] = []"
| "Headers_overwrite name val ((n, v) # h) =
     (if same_name n name then (n, val) # filter (\<lambda>(n', v'). \<not> same_name n' name) h
      else (n, v) # Headers_overwrite name val h)"

definition Headers_set :: "string \<Rightarrow> string \<Rightarrow> Headers \<Rightarrow> Headers" where
  "Headers_set name val h =
     (if Headers_has name h then Headers_overwrite name val h else Headers_append name val h)"

fun join_values :: "string list \<Rightarrow> string" where
  "join_values [] = []"
| "join_values [v] = v"
| "join_values (v # w # vs) = v @ '', '' @ join_values (w # vs)"

definition values_of :: "string \<Rightarrow> Headers \<Rightarrow> string list" where
  "values_of name h = map snd (filter (\<lambda>(n, v). same_name n name) h)"

definition Headers_get :: "string \<Rightarrow> Headers \<Rightarrow> string option" where
  "Headers_get name h =
     (if Headers_has name h then Some (join_values (values_of name h)) else None)"

definition new_Headers :: "js_record \<Rightarrow> Headers" where
  "new_Headers init = fold (\<lambda>(key, val) h. Headers_append key val h) init []"

definition Headers_entries :: "Headers \<Rightarrow> (string \<times> string) list" where
  "Headers_entries h =
     concat (map (\<lambda>name.
         if name = ''set-cookie'' then map (\<lambda>v. (name, v)) (values_of name h)
         else [(name, join_values (values_of name h))])
       (sort (remdups (map (\<lambda>(n, v). toLowerCase n) h))))"

section \<open>Errors\<close>

text \<open>The request descriptor \<^verbatim>\<open>{ method, url, body }\<close> that every error carries.\<close>

record request_descriptor =
  http_method :: string
  url :: string
  body :: "json option"

text \<open>
  Whatever a \<^verbatim>\<open>catch\<close> clause can receive. \<open>DOMException name message\<close> and \<open>JsError message\<close>
  are instances of \<^verbatim>\<open>Error\<close>, as is the SDK's own \<^verbatim>\<open>WorkflowAPIError\<close>; \<open>ThrownValue\<close> is
  any other non-null value, kept as the text \<^verbatim>\<open>String(value)\<close> gives.
\<close>

datatype thrown =
    ThrownNull
  | ThrownUndefined
  | DOMException string string
  | JsError string
  | ApiError WorkflowAPIError
  | ThrownValue string
and WorkflowAPIError =
    WorkflowAPIError
      (error_message: string)
      (error_status: int)
      (error_statusText: string)
      (error_headers: js_record)
      (error_data: json)
      (error_request: request_descriptor)
      (error_cause: "thrown option")

datatype headers_init = FromHeaders Headers | FromRecord js_record

fun normalizeHeaders :: "headers_init option \<Rightarrow> js_record" where
  "normalizeHeaders None = []"
| "normalizeHeaders (Some (FromHeaders h)) = Object_entries_forEach_assign (Headers_entries h) []"
| "normalizeHeaders (Some (FromRecord r)) = r"

text \<open>
  The constructor of \<^verbatim>\<open>WorkflowAPIError\<close>: a missing status text becomes the empty string,
  missing data becomes \<^verbatim>\<open>null\<close>, the headers are normalised to a plain object.
\<close>

definition new_WorkflowAPIError ::
  "string \<Rightarrow> int \<Rightarrow> string option \<Rightarrow> headers_init option \<Rightarrow> json option \<Rightarrow>
   request_descriptor \<Rightarrow> thrown option \<Rightarrow> WorkflowAPIError" where
  "new_WorkflowAPIError msg st stText hdrs dat req cause =
     WorkflowAPIError msg st (case stText of None \<Rightarrow> [] | Some t \<Rightarrow> t) (normalizeHeaders hdrs)
       (case dat of None \<Rightarrow> JNull | Some d \<Rightarrow> d) req cause"

fun instanceof_Error :: "thrown \<Rightarrow> bool" where
  "instanceof_Error (DOMException n m) = True"
| "instanceof_Error (JsError m) = True"
| "instanceof_Error (ApiError e) = True"
| "instanceof_Error _ = False"

fun message_of :: "thrown \<Rightarrow> string" where
  "message_of (DOMException n m) = m"
| "message_of (JsError m) = m"
| "message_of (ApiError e) = error_message e"
| "message_of _ = []"

fun String :: "thrown \<Rightarrow> string" where
  "String ThrownNull = ''null''"
| "String ThrownUndefined = ''undefined''"
| "String (ThrownValue s) = s"
| "String (DOMException n m) = n @ '': '' @ m"
| "String (JsError m) = ''Error: '' @ m"
| "String (ApiError e) = ''WorkflowAPIError: '' @ error_message e"

section \<open>Transport layer: one HTTP request with timeout and retry\<close>

record response =
  response_status :: int
  response_statusText :: string
  response_headers :: Headers
  response_json :: "thrown + json"
  response_text :: "thrown + string"

definition ok :: "response \<Rightarrow> bool" where
  "ok r = (200 \<le> response_status r \<and> response_status r \<le> 299)"

record WorkflowClientRetryConfig =
  maxAttempts :: number
  initialDelayMs :: number
  backoffFactor :: number
  maxDelayMs :: number
  retryOnStatuses :: "int list"


definition DEFAULT_RETRYABLE_STATUSES :: "int list" where
  "DEFAULT_RETRYABLE_STATUSES = [408, 425, 429]"

definition range :: "int \<Rightarrow> int \<Rightarrow> int list" where
  "range start endInclusive = [start..endInclusive]"

definition nullish_or :: "'a option \<Rightarrow> 'a \<Rightarrow> 'a" where
  "nullish_or v d = (case v of None \<Rightarrow> d | Some x \<Rightarrow> x)"

definition default_retry :: WorkflowClientRetryConfig where
  "default_retry =
     \<lparr>maxAttempts = 3, initialDelayMs = 1000, backoffFactor = 2, maxDelayMs = 30000,
      retryOnStatuses = DEFAULT_RETRYABLE_STATUSES @ range 500 599\<rparr>"


definition shouldRetry :: "int \<Rightarrow> WorkflowClientRetryConfig \<Rightarrow> bool" where
  "shouldRetry st retry = (st \<in> set (retryOnStatuses retry))"

text \<open>
  \<^verbatim>\<open>delayWithBackoff\<close> computes the delay and sleeps for it; the model returns the delay
  handed to the timer.
\<close>

definition delayWithBackoff :: "int \<Rightarrow> WorkflowClientRetryConfig \<Rightarrow> number" where
  "delayWithBackoff attempt retry =
     (let exponent = nat (max 0 (attempt - 1));
          rawDelay = initialDelayMs retry * backoffFactor retry ^ exponent
      in min rawDelay (maxDelayMs retry))"

definition retryableMessages :: "string list" where
  "retryableMessages = [''ECONNRESET'', ''ENOTFOUND'', ''EAI_AGAIN'', ''ETIMEDOUT'', ''socket hang up'']"

fun isRetryableNetworkError :: "thrown \<Rightarrow> bool" where
  "isRetryableNetworkError ThrownNull = False"
| "isRetryableNetworkError ThrownUndefined = False"
| "isRetryableNetworkError (DOMException name msg) =
     (if name = ''AbortError'' then True
      else list_ex (\<lambda>m. includes_str (toUpperCase msg) m) retryableMessages)"
| "isRetryableNetworkError (JsError msg) =
     list_ex (\<lambda>m. includes_str (toUpperCase msg) m) retryableMessages"
| "isRetryableNetworkError (ApiError e) =
     list_ex (\<lambda>m. includes_str (toUpperCase (error_message e)) m) retryableMessages"
| "isRetryableNetworkError (ThrownValue v) = False"

text \<open>
  What the world does during one attempt: how \<^verbatim>\<open>fetch\<close> settles, whether the timeout timer
  fired before that, and whether the caller's signal (when one was passed) is aborted by
  then. The internal controller is aborted by the timer and by the caller's signal only.
\<close>

record attempt_env =
  fetch_result :: "thrown + response"
  timer_fired :: bool
  caller_aborted :: bool

definition performRequest ::
  "string \<Rightarrow> string \<Rightarrow> bool \<Rightarrow> int \<Rightarrow> attempt_env \<Rightarrow> thrown + response" where
  "performRequest target meth has_signal timeoutMs env =
     (let externalSignal_aborted = (has_signal \<and> caller_aborted env);
          controller_aborted = (timer_fired env \<or> externalSignal_aborted)
      in case fetch_result env of
           Inr resp \<Rightarrow> Inr resp
         | Inl error \<Rightarrow>
             if controller_aborted then
               if externalSignal_aborted then Inl error
               else Inl (JsError (''Request aborted after '' @ toString timeoutMs @ ''ms (''
                                   @ meth @ '' '' @ target @ '')''))
             else Inl error)"

definition content_type_is_json :: "response \<Rightarrow> bool" where
  "content_type_is_json r =
     includes_str (nullish_or (Headers_get ''content-type'' (response_headers r)) [])
       ''application/json''"

definition parseSuccessResponse :: "response \<Rightarrow> request_descriptor \<Rightarrow> thrown + json" where
  "parseSuccessResponse r request =
     (if response_status r = 204 then Inr JNull
      else if \<not> content_type_is_json r then
        (case response_text r of Inl error \<Rightarrow> Inl error | Inr t \<Rightarrow> Inr (JString t))
      else
        (case response_json r of
           Inr v \<Rightarrow> Inr v
         | Inl error \<Rightarrow>
             Inl (ApiError (new_WorkflowAPIError ''Failed to parse JSON response''
                    (response_status r) (Some (response_statusText r))
                    (Some (FromHeaders (response_headers r))) None request (Some error)))))"

definition parse_failure :: "thrown \<Rightarrow> json" where
  "parse_failure error =
     JObject [(''parseError'', JString (if instanceof_Error error then message_of error else String error))]"

definition parseErrorBody :: "response \<Rightarrow> json" where
  "parseErrorBody r =
     (if content_type_is_json r then
        (case response_json r of Inr v \<Rightarrow> v | Inl error \<Rightarrow> parse_failure error)
      else
        (case response_text r of
           Inr t \<Rightarrow> if t \<noteq> [] then JString t else JNull
         | Inl error \<Rightarrow> parse_failure error))"

text \<open>\<^verbatim>\<open>data.message ?? data.error\<close> on a parsed object: a missing or null property gives way.\<close>

definition message_or_error :: "(string \<times> json) list \<Rightarrow> json option" where
  "message_or_error props =
     (case map_of props ''message'' of
        None \<Rightarrow> map_of props ''error''
      | Some JNull \<Rightarrow> map_of props ''error''
      | Some v \<Rightarrow> Some v)"

definition buildErrorMessage :: "response \<Rightarrow> json \<Rightarrow> string" where
  "buildErrorMessage r dat =
     (let plain = toString (response_status r) @ '' '' @ response_statusText r in
      case dat of
        JString s \<Rightarrow> if s \<noteq> [] then plain @ '': '' @ s else plain
      | JObject props \<Rightarrow>
          (case message_or_error props of
             Some (JString m) \<Rightarrow> if m \<noteq> [] then plain @ '': '' @ m else plain
           | _ \<Rightarrow> plain)
      | _ \<Rightarrow> plain)"

definition toWorkflowError :: "response \<Rightarrow> request_descriptor \<Rightarrow> WorkflowAPIError" where
  "toWorkflowError r requestDescriptor =
     (let dat = parseErrorBody r in
      new_WorkflowAPIError (buildErrorMessage r dat) (response_status r)
        (Some (response_statusText r)) (Some (FromHeaders (response_headers r))) (Some dat)
        requestDescriptor None)"

text \<open>
  The part of \<^verbatim>\<open>HttpClient.request\<close> before its loop resolves the URL, the method, the
  timeout and the retry policy and builds the request descriptor; the loop only reads them.
  The descriptor carries the same URL and upper-cased method that \<^verbatim>\<open>performRequest\<close> gets.
\<close>

record prepared_request =
  requestDescriptor :: request_descriptor
  has_signal :: bool
  timeoutMs :: int
  retry :: WorkflowClientRetryConfig

datatype attempt_result = Return json | Throw WorkflowAPIError | Continue

definition network_error :: "thrown \<Rightarrow> request_descriptor \<Rightarrow> WorkflowAPIError" where
  "network_error error descriptor =
     new_WorkflowAPIError
       (if instanceof_Error error then message_of error else ''Request failed without a message'')
       0 (Some ''NETWORK_ERROR'') (Some (FromRecord [])) None descriptor (Some error)"

text \<open>The \<^verbatim>\<open>catch\<close> clause of the loop body.\<close>

definition catch_clause :: "prepared_request \<Rightarrow> int \<Rightarrow> thrown \<Rightarrow> attempt_result" where
  "catch_clause req attempt error =
     (case error of
        ApiError e \<Rightarrow> Throw e
      | _ \<Rightarrow>
          if real_of_int attempt < maxAttempts (retry req) \<and> isRetryableNetworkError error
             \<and> maxAttempts (retry req) > 1
          then Continue
          else Throw (network_error error (requestDescriptor req)))"

text \<open>
  The body of the loop. An error thrown inside \<^verbatim>\<open>try\<close> (also the \<^verbatim>\<open>WorkflowAPIError\<close> built
  from a non-2xx response) goes through the \<^verbatim>\<open>catch\<close> clause.
\<close>

definition attempt_body :: "prepared_request \<Rightarrow> attempt_env \<Rightarrow> int \<Rightarrow> attempt_result" where
  "attempt_body req env attempt =
     (case performRequest (url (requestDescriptor req)) (http_method (requestDescriptor req))
             (has_signal req) (timeoutMs req) env of
        Inl error \<Rightarrow> catch_clause req attempt error
      | Inr resp \<Rightarrow>
          if ok resp then
            (case parseSuccessResponse resp (requestDescriptor req) of
               Inr v \<Rightarrow> Return v
             | Inl error \<Rightarrow> catch_clause req attempt error)
          else
            (let error = toWorkflowError resp (requestDescriptor req) in
             if real_of_int attempt < maxAttempts (retry req)
                \<and> shouldRetry (response_status resp) (retry req)
             then Continue
             else catch_clause req attempt (ApiError error)))"

text \<open>
  What a run of the loop does, in order: \<open>Fetch n\<close> is attempt \<open>n\<close> calling
  \<^verbatim>\<open>performRequest\<close>, \<open>Backoff d\<close> is a sleep of \<open>d\<close> milliseconds.
\<close>

datatype transport_event = Fetch int | Backoff number

record transport_run =
  transport_events :: "transport_event list"
  outcome :: "WorkflowAPIError + json"

definition retry_exhausted :: "request_descriptor \<Rightarrow> WorkflowAPIError" where
  "retry_exhausted descriptor =
     new_WorkflowAPIError ''Exceeded maximum retry attempts'' 0 (Some ''RETRY_EXHAUSTED'')
       (Some (FromRecord [])) None descriptor None"

function request_loop :: "prepared_request \<Rightarrow> (int \<Rightarrow> attempt_env) \<Rightarrow> int \<Rightarrow> transport_run" where
  "request_loop req world attempt =
     (if real_of_int attempt \<le> maxAttempts (retry req) then
        (case attempt_body req (world attempt) attempt of
           Return v \<Rightarrow> \<lparr>transport_events = [Fetch attempt], outcome = Inr v\<rparr>
         | Throw e \<Rightarrow> \<lparr>transport_events = [Fetch attempt], outcome = Inl e\<rparr>
         | Continue \<Rightarrow>
             (let rest = request_loop req world (attempt + 1) in
              rest\<lparr>transport_events :=
                     Fetch attempt # Backoff (delayWithBackoff attempt (retry req))
                       # transport_events rest\<rparr>))
      else \<lparr>transport_events = [], outcome = Inl (retry_exhausted (requestDescriptor req))\<rparr>)"
  by pat_completeness auto
termination
  by (relation "measure (\<lambda>(req, world, attempt). nat (\<lfloor>maxAttempts (retry req)\<rfloor> + 1 - attempt))")
     (auto simp: le_floor_iff)

declare request_loop.simps [simp del]

definition request :: "prepared_request \<Rightarrow> (int \<Rightarrow> attempt_env) \<Rightarrow> transport_run" where
  "request req world = request_loop req world 1"

subsection \<open>Request headers\<close>

definition SDK_VERSION :: string where
  "SDK_VERSION = ''0.1.0''"

definition buildUserAgent :: "string option \<Rightarrow> string" where
  "buildUserAgent userAgentSuffix =
     (let base = ''syncteams-sdk/'' @ SDK_VERSION in
      case userAgentSuffix of
        None \<Rightarrow> base
      | Some suffix \<Rightarrow> if suffix = [] then base else trim (base @ '' '' @ suffix))"

definition buildDefaultHeaders :: "string \<Rightarrow> js_record option \<Rightarrow> string option \<Rightarrow> js_record" where
  "buildDefaultHeaders apiKey overrides userAgentSuffix =
     (let headers = [(''Accept'', ''application/json''),
                     (''User-Agent'', buildUserAgent userAgentSuffix),
                     (''x-api-key'', apiKey)]
      in case overrides of
           None \<Rightarrow> headers
         | Some ov \<Rightarrow> Object_entries_forEach_assign ov headers)"

text \<open>The three shapes of \<^verbatim>\<open>HeadersInit\<close> a call may pass.\<close>

datatype HeadersInit =
    InitHeaders Headers
  | InitArray "(string \<times> string) list"
  | InitRecord js_record

text \<open>
  The request body as far as the code inspects it: its \<^verbatim>\<open>typeof\<close> and the classes it is
  tested against.
\<close>

datatype request_body =
    BodyString string
  | BodyNumber number
  | BodyBoolean bool
  | BodyArrayBuffer
  | BodyBlob
  | BodyFormData
  | BodyURLSearchParams string
  | BodyArrayBufferView
  | BodyObject json

fun typeof_object :: "request_body \<Rightarrow> bool" where
  "typeof_object (BodyString s) = False"
| "typeof_object (BodyNumber n) = False"
| "typeof_object (BodyBoolean b) = False"
| "typeof_object _ = True"

definition set_each :: "(string \<times> string) list \<Rightarrow> Headers \<Rightarrow> Headers" where
  "set_each entries h = fold (\<lambda>(key, val) acc. Headers_set key val acc) entries h"

definition mergeHeaders :: "js_record \<Rightarrow> HeadersInit option \<Rightarrow> request_body option \<Rightarrow> Headers" where
  "mergeHeaders defaultHeaders customHeaders body_opt =
     (let headers = new_Headers defaultHeaders;
          headers = (case customHeaders of
                       Some (InitHeaders ch) \<Rightarrow> set_each (Headers_entries ch) headers
                     | Some (InitArray pairs) \<Rightarrow> set_each pairs headers
                     | Some (InitRecord r) \<Rightarrow> set_each r headers
                     | None \<Rightarrow> headers)
      in case body_opt of
           None \<Rightarrow> headers
         | Some b \<Rightarrow>
             if typeof_object b \<and> b \<noteq> BodyArrayBuffer \<and> b \<noteq> BodyBlob \<and> b \<noteq> BodyFormData
                \<and> Headers_get ''content-type'' headers = None
             then Headers_set ''Content-Type'' ''application/json'' headers
             else headers)"

section \<open>Workflow orchestration layer\<close>

datatype WorkflowStatus = QUEUED | PENDING | RUNNING | WAITING | CANCELED | FAILED | COMPLETED

datatype ApprovalDecision = APPROVE | REJECT

record ExecuteWorkflowResponse =
  taskId :: string
  status :: WorkflowStatus

record TaskStatusResponse = ExecuteWorkflowResponse +
  eventLogs :: "json list option"

definition TERMINAL_STATUSES :: "WorkflowStatus list" where
  "TERMINAL_STATUSES = [COMPLETED, FAILED, CANCELED]"

definition DEFAULT_POLL_INTERVAL_MS :: number where
  "DEFAULT_POLL_INTERVAL_MS = 2000"

definition DEFAULT_MAX_WAIT_TIME_MS :: int where
  "DEFAULT_MAX_WAIT_TIME_MS = 10 * 60 * 1000"

text \<open>
  The client calls the transport layer once per operation. A call of an operation yields
  the transport requests it issued and its result; what the transport layer answers is
  given from outside. A request is the path and the \<^verbatim>\<open>init\<close> object handed to
  \<^verbatim>\<open>HttpClient.request\<close>: its method, its body and whether it holds an abort signal.
\<close>

record http_call =
  call_method :: string
  call_path :: string
  call_body :: "json option"
  call_signal :: bool





record 'a operation =
  requests :: "http_call list"
  result :: "thrown + 'a"

definition assertString :: "string \<Rightarrow> string \<Rightarrow> thrown option" where
  "assertString val field =
     (if length (trim val) = 0 then Some (JsError (field @ '' must be a non-empty string''))
      else None)"

fun status_name :: "WorkflowStatus \<Rightarrow> string" where
  "status_name QUEUED = ''QUEUED''"
| "status_name PENDING = ''PENDING''"
| "status_name RUNNING = ''RUNNING''"
| "status_name WAITING = ''WAITING''"
| "status_name CANCELED = ''CANCELED''"
| "status_name FAILED = ''FAILED''"
| "status_name COMPLETED = ''COMPLETED''"

fun decision_name :: "ApprovalDecision \<Rightarrow> string" where
  "decision_name APPROVE = ''APPROVE''"
| "decision_name REJECT = ''REJECT''"

text \<open>
  \<^verbatim>\<open>new URLSearchParams({ taskId }).toString()\<close>: form-urlencoding of the value. Letters,
  digits and \<^verbatim>\<open>*-._\<close> stay, a space becomes \<^verbatim>\<open>+\<close>, any other byte becomes \<^verbatim>\<open>%XX\<close>.
\<close>

definition urlencode_char :: "char \<Rightarrow> string" where
  "urlencode_char c =
     (if c \<in> set ''abcdefghijklmnopqrstuvwxyzABCDEFGHIJKLMNOPQRSTUVWXYZ0123456789*-._'' then [c]
      else if c = CHR '' '' then ''+''
      else [CHR ''%'', ''0123456789ABCDEF'' ! (of_char c div 16),
            ''0123456789ABCDEF'' ! (of_char c mod 16)])"

definition status_query :: "string \<Rightarrow> string" where
  "status_query tid = ''taskId='' @ concat (map urlencode_char tid)"

definition getTaskStatus ::
  "string \<Rightarrow> (thrown + TaskStatusResponse) \<Rightarrow> TaskStatusResponse operation" where
  "getTaskStatus tid http =
     (case assertString tid ''taskId'' of
        Some error \<Rightarrow> \<lparr>requests = [], result = Inl error\<rparr>
      | None \<Rightarrow>
          \<lparr>requests = [\<lparr>call_method = ''GET'', call_path = ''/api/v1/status?'' @ status_query tid,
                         call_body = None, call_signal = False\<rparr>],
           result = http\<rparr>)"

text \<open>
  \<^verbatim>\<open>JSON.stringify\<close> leaves out a property whose value is \<^verbatim>\<open>undefined\<close>.
\<close>

definition optional_property :: "string \<Rightarrow> string option \<Rightarrow> (string \<times> json) list" where
  "optional_property key v = (case v of None \<Rightarrow> [] | Some s \<Rightarrow> [(key, JString s)])"

definition continueTask ::
  "string \<Rightarrow> ApprovalDecision \<Rightarrow> string option \<Rightarrow> (thrown + TaskStatusResponse) \<Rightarrow>
   TaskStatusResponse operation" where
  "continueTask tid decision msg http =
     (case assertString tid ''taskId'' of
        Some error \<Rightarrow> \<lparr>requests = [], result = Inl error\<rparr>
      | None \<Rightarrow>
          if decision = REJECT \<and> (msg = None \<or> msg = Some [])
          then \<lparr>requests = [],
                result = Inl (JsError ''message is required when decision is REJECT'')\<rparr>
          else
            \<lparr>requests = [\<lparr>call_method = ''POST'', call_path = ''/api/v1/continue'',
                           call_body = Some (JObject ([(''taskId'', JString tid),
                                                       (''type'', JString (decision_name decision))]
                                                      @ optional_property ''message'' msg)),
                           call_signal = False\<rparr>],
             result = http\<rparr>)"

subsection \<open>Waiting for completion\<close>

text \<open>
  \<open>signal\<close> and \<open>onUpdate\<close> say whether the caller passed an abort signal and an update
  callback. Callbacks are the caller's code: the model records each invocation and takes it
  to return normally.
\<close>

record WaitForCompletionOptions =
  pollIntervalMs :: "number option"
  maxWaitTimeMs :: "int option"
  terminalStatuses :: "WorkflowStatus list option"
  exitOnWaiting :: "bool option"
  signal :: bool
  onUpdate :: bool

text \<open>
  What the world does around one poll: whether the signal is already aborted when the
  iteration starts, what the status request yields, what \<^verbatim>\<open>Date.now()\<close> reads after it, and
  whether the signal is (or becomes) aborted while the loop sleeps afterwards. A wait
  consumes one entry per iteration; the clock is not assumed to be monotonic.
\<close>

record poll_env =
  aborted_before_poll :: bool
  status_result :: "thrown + TaskStatusResponse"
  now_after_poll :: int
  aborted_during_sleep :: bool

record wait_world =
  startedAt :: int
  signal_reason :: thrown
  polls :: "poll_env list"

fun abortedError :: "thrown \<Rightarrow> thrown" where
  "abortedError (DOMException name msg) =
     (if name = ''AbortError'' then DOMException name msg
      else DOMException ''AbortError'' ''The operation was aborted'')"
| "abortedError _ = DOMException ''AbortError'' ''The operation was aborted''"

definition sleep :: "bool \<Rightarrow> bool \<Rightarrow> thrown \<Rightarrow> thrown option" where
  "sleep has_sig aborted reason = (if has_sig \<and> aborted then Some (abortedError reason) else None)"

definition poll_timeout_error :: "string \<Rightarrow> int \<Rightarrow> WorkflowStatus \<Rightarrow> WorkflowAPIError" where
  "poll_timeout_error tid maxWait lastStatus =
     new_WorkflowAPIError
       (''Timed out after '' @ toString maxWait @ ''ms waiting for task '' @ tid)
       0 (Some ''POLL_TIMEOUT'') (Some (FromRecord []))
       (Some (JObject [(''taskId'', JString tid), (''lastStatus'', JString (status_name lastStatus))]))
       \<lparr>http_method = ''GET'', url = ''/api/v1/status?taskId='' @ tid, body = None\<rparr>
       None"

text \<open>
  The events of a wait, in order: a status request with its answer, an invocation of the
  update callback, an evaluation of the deadline with the elapsed time it computed, the
  start of a sleep.
\<close>

datatype wait_event =
    Poll "thrown + TaskStatusResponse"
  | Update TaskStatusResponse
  | DeadlineCheck int
  | Sleep number

text \<open>The statements through which \<^verbatim>\<open>waitForCompletion\<close> can end.\<close>

datatype wait_exit =
    InvalidTaskId
  | AbortedBeforePoll
  | StatusRequestFailed
  | ReachedStoppingStatus
  | DeadlinePassed
  | AbortedDuringSleep

text \<open>A wait that is still polling when the world's script ends has no exit and no result.\<close>

record wait_run =
  wait_events :: "wait_event list"
  wait_exit :: "wait_exit option"
  wait_result :: "(thrown + TaskStatusResponse) option"

definition is_stopping :: "WaitForCompletionOptions \<Rightarrow> WorkflowStatus \<Rightarrow> bool" where
  "is_stopping opts s =
     (let terminalSet = set (nullish_or (terminalStatuses opts) TERMINAL_STATUSES);
          isTerminal = (s \<in> terminalSet);
          isWaiting = (s = WAITING)
      in isTerminal \<or> (isWaiting \<and> nullish_or (exitOnWaiting opts) False))"

text \<open>
  One iteration of the \<^verbatim>\<open>while (true)\<close> loop: its events and either the exit taken and the
  result of the whole call (\<open>Inl\<close>) or the \<^verbatim>\<open>lastStatus\<close> the next iteration starts with
  (\<open>Inr\<close>).
\<close>

definition poll_iteration ::
  "WaitForCompletionOptions \<Rightarrow> string \<Rightarrow> int \<Rightarrow> thrown \<Rightarrow> WorkflowStatus option \<Rightarrow> poll_env \<Rightarrow>
   wait_event list \<times> ((wait_exit \<times> (thrown + TaskStatusResponse)) + WorkflowStatus option)" where
  "poll_iteration opts tid started reason lastStatus env =
     (if signal opts \<and> aborted_before_poll env
      then ([], Inl (AbortedBeforePoll, Inl (abortedError reason)))
      else
        let fetched = getTaskStatus tid (status_result env);
            polled = map (\<lambda>c. Poll (result fetched)) (requests fetched)
        in case result fetched of
             Inl error \<Rightarrow> (polled, Inl (StatusRequestFailed, Inl error))
           | Inr st \<Rightarrow>
               let changed = (Some (status st) \<noteq> lastStatus);
                   lastStatus' = (if changed then Some (status st) else lastStatus);
                   notified = (if changed \<and> onUpdate opts then [Update st] else [])
               in if is_stopping opts (status st)
                  then (polled @ notified, Inl (ReachedStoppingStatus, Inr st))
                  else
                    let elapsed = now_after_poll env - started;
                        maxWait = nullish_or (maxWaitTimeMs opts) DEFAULT_MAX_WAIT_TIME_MS;
                        interval = nullish_or (pollIntervalMs opts) DEFAULT_POLL_INTERVAL_MS
                    in if elapsed \<ge> maxWait
                       then (polled @ notified @ [DeadlineCheck elapsed],
                             Inl (DeadlinePassed,
                                  Inl (ApiError (poll_timeout_error tid maxWait (status st)))))
                       else
                         (case sleep (signal opts) (aborted_during_sleep env) reason of
                            Some error \<Rightarrow>
                              (polled @ notified @ [DeadlineCheck elapsed, Sleep interval],
                               Inl (AbortedDuringSleep, Inl error))
                          | None \<Rightarrow>
                              (polled @ notified @ [DeadlineCheck elapsed, Sleep interval],
                               Inr lastStatus')))"

fun poll_loop ::
  "WaitForCompletionOptions \<Rightarrow> string \<Rightarrow> int \<Rightarrow> thrown \<Rightarrow> WorkflowStatus option \<Rightarrow>
   poll_env list \<Rightarrow> wait_run" where
  "poll_loop opts tid started reason lastStatus [] =
     \<lparr>wait_events = [], wait_exit = None, wait_result = None\<rparr>"
| "poll_loop opts tid started reason lastStatus (env # envs) =
     (case poll_iteration opts tid started reason lastStatus env of
        (evs, Inl (ex, res)) \<Rightarrow> \<lparr>wait_events = evs, wait_exit = Some ex, wait_result = Some res\<rparr>
      | (evs, Inr lastStatus') \<Rightarrow>
          (let rest = poll_loop opts tid started reason lastStatus' envs in
           rest\<lparr>wait_events := evs @ wait_events rest\<rparr>))"

definition waitForCompletion :: "string \<Rightarrow> WaitForCompletionOptions \<Rightarrow> wait_world \<Rightarrow> wait_run" where
  "waitForCompletion tid opts world =
     (case assertString tid ''taskId'' of
        Some error \<Rightarrow>
          \<lparr>wait_events = [], wait_exit = Some InvalidTaskId, wait_result = Some (Inl error)\<rparr>
      | None \<Rightarrow> poll_loop opts tid (startedAt world) (signal_reason world) None (polls world))"

subsection \<open>Triggering and waiting, with approval pauses\<close>

datatype workflow_input = Serializable json | NotSerializable

record ExecuteWorkflowInput =
  workflowId :: string
  input :: workflow_input
  uniqueId :: "string option"

definition ensureSerializable :: "workflow_input \<Rightarrow> string \<Rightarrow> thrown option" where
  "ensureSerializable val field =
     (case val of
        Serializable j \<Rightarrow> None
      | NotSerializable \<Rightarrow> Some (JsError (field @ '' must be JSON serializable'')))"

definition executeWorkflow ::
  "ExecuteWorkflowInput \<Rightarrow> (thrown + ExecuteWorkflowResponse) \<Rightarrow> ExecuteWorkflowResponse operation" where
  "executeWorkflow inp http =
     (case assertString (workflowId inp) ''workflowId'' of
        Some error \<Rightarrow> \<lparr>requests = [], result = Inl error\<rparr>
      | None \<Rightarrow>
          (case ensureSerializable (input inp) ''input'' of
             Some error \<Rightarrow> \<lparr>requests = [], result = Inl error\<rparr>
           | None \<Rightarrow>
               \<lparr>requests = [\<lparr>call_method = ''POST'', call_path = ''/api/v1'',
                              call_body = Some (JObject ([(''workflowId'', JString (workflowId inp))]
                                                         @ optional_property ''uniqueId'' (uniqueId inp)
                                                         @ (case input inp of
                                                              Serializable j \<Rightarrow> [(''input'', j)]
                                                            | NotSerializable \<Rightarrow> []))),
                              call_signal = False\<rparr>],
                result = http\<rparr>))"

record ExecuteAndWaitOptions =
  waitOptions :: WaitForCompletionOptions
  onWaiting :: bool

text \<open>
  One iteration of the resume loop runs one wait and, when that wait ends in \<open>WAITING\<close>,
  asks the pause handler, whose answer the world supplies.
\<close>

record resume_env =
  wait_script :: wait_world
  onWaiting_answer :: bool

record execute_world =
  trigger_response :: "thrown + ExecuteWorkflowResponse"
  resumes :: "resume_env list"

text \<open>
  The statements through which \<^verbatim>\<open>executeAndWait\<close> can end; \<open>FellOffLoop\<close> is the \<^verbatim>\<open>throw\<close>
  placed after the loop. A run records the waits it made and every call of the pause
  handler with the answer it got.
\<close>

datatype exit_point =
    TriggerFailed
  | ReturnedPlainWait
  | WaitFailed
  | ReturnedNotWaiting
  | ReturnedDeclined
  | FellOffLoop

record execute_run =
  trigger_requests :: "http_call list"
  waits :: "wait_run list"
  onWaiting_calls :: "(TaskStatusResponse \<times> bool) list"
  exit_point :: "exit_point option"
  final :: "(thrown + TaskStatusResponse) option"

definition leave :: "exit_point \<Rightarrow> (thrown + TaskStatusResponse) \<Rightarrow> execute_run" where
  "leave ep res =
     \<lparr>trigger_requests = [], waits = [], onWaiting_calls = [], exit_point = Some ep,
      final = Some res\<rparr>"

definition unfinished :: execute_run where
  "unfinished =
     \<lparr>trigger_requests = [], waits = [], onWaiting_calls = [], exit_point = None, final = None\<rparr>"

fun resume_loop ::
  "WaitForCompletionOptions \<Rightarrow> string \<Rightarrow> bool \<Rightarrow> resume_env list \<Rightarrow> execute_run" where
  "resume_loop wopts tid continuePolling envs =
     (if \<not> continuePolling
      then leave FellOffLoop (Inl (JsError ''Unexpected: executeAndWait exited without returning''))
      else
        (case envs of
           [] \<Rightarrow> unfinished
         | env # rest \<Rightarrow>
             (let w = waitForCompletion tid (wopts\<lparr>exitOnWaiting := Some True\<rparr>) (wait_script env) in
              case wait_result w of
                None \<Rightarrow> unfinished\<lparr>waits := [w]\<rparr>
              | Some (Inl error) \<Rightarrow> (leave WaitFailed (Inl error))\<lparr>waits := [w]\<rparr>
              | Some (Inr current) \<Rightarrow>
                  if status current \<noteq> WAITING
                  then (leave ReturnedNotWaiting (Inr current))\<lparr>waits := [w]\<rparr>
                  else
                    (let continuePolling' = onWaiting_answer env in
                     if \<not> continuePolling'
                     then (leave ReturnedDeclined (Inr current))
                            \<lparr>waits := [w], onWaiting_calls := [(current, continuePolling')]\<rparr>
                     else
                       (let later = resume_loop wopts tid continuePolling' rest in
                        later\<lparr>waits := w # waits later,
                              onWaiting_calls :=
                                (current, continuePolling') # onWaiting_calls later\<rparr>)))))"

declare resume_loop.simps [simp del]

definition executeAndWait ::
  "ExecuteWorkflowInput \<Rightarrow> ExecuteAndWaitOptions \<Rightarrow> execute_world \<Rightarrow> execute_run" where
  "executeAndWait inp opts world =
     (let initial = executeWorkflow inp (trigger_response world) in
      case result initial of
        Inl error \<Rightarrow> (leave TriggerFailed (Inl error))\<lparr>trigger_requests := requests initial\<rparr>
      | Inr started \<Rightarrow>
          if \<not> onWaiting opts then
            (case resumes world of
               [] \<Rightarrow> unfinished\<lparr>trigger_requests := requests initial\<rparr>
             | env # rest \<Rightarrow>
                 (let w = waitForCompletion (taskId started) (waitOptions opts) (wait_script env) in
                  \<lparr>trigger_requests = requests initial, waits = [w], onWaiting_calls = [],
                   exit_point = (case wait_result w of None \<Rightarrow> None | Some r \<Rightarrow> Some ReturnedPlainWait),
                   final = wait_result w\<rparr>))
          else
            (let run = resume_loop (waitOptions opts) (taskId started) True (resumes world) in
             run\<lparr>trigger_requests := requests initial\<rparr>))"

section \<open>Reading a wait's events\<close>

text \<open>
  The answers to the status requests of a wait, the status records among them, and the
  records handed to the callback.
\<close>

fun fetched :: "wait_event list \<Rightarrow> (thrown + TaskStatusResponse) list" where
  "fetched [] = []"
| "fetched (Poll r # es) = r # fetched es"
| "fetched (e # es) = fetched es"

fun observed :: "wait_event list \<Rightarrow> TaskStatusResponse list" where
  "observed [] = []"
| "observed (Poll (Inr st) # es) = st # observed es"
| "observed (e # es) = observed es"

fun updates_of :: "wait_event list \<Rightarrow> TaskStatusResponse list" where
  "updates_of [] = []"
| "updates_of (Update st # es) = st # updates_of es"
| "updates_of (e # es) = updates_of es"

fun is_Poll :: "wait_event \<Rightarrow> bool" where
  "is_Poll (Poll r) = True"
| "is_Poll e = False"

text \<open>
  The records of a sequence whose status differs from the status observed just before
  (\<open>lastStatus\<close> before the first one).
\<close>

fun status_changes :: "WorkflowStatus option \<Rightarrow> TaskStatusResponse list \<Rightarrow> TaskStatusResponse list" where
  "status_changes lastStatus [] = []"
| "status_changes lastStatus (st # sts) =
     (if Some (status st) = lastStatus then status_changes lastStatus sts
      else st # status_changes (Some (status st)) sts)"

text \<open>
  An iteration after which the loop goes round again: no cancellation, a status that does
  not stop the wait, and a deadline not yet reached.
\<close>

definition keeps_polling :: "WaitForCompletionOptions \<Rightarrow> int \<Rightarrow> poll_env \<Rightarrow> bool" where
  "keeps_polling opts started env =
     (\<not> (signal opts \<and> aborted_before_poll env)
      \<and> (case status_result env of Inl error \<Rightarrow> False | Inr st \<Rightarrow> \<not> is_stopping opts (status st))
      \<and> now_after_poll env - started < nullish_or (maxWaitTimeMs opts) DEFAULT_MAX_WAIT_TIME_MS
      \<and> \<not> (signal opts \<and> aborted_during_sleep env))"

section \<open>Scenarios\<close>

text \<open>Concrete requests, worlds and waits on which the properties below are exercised.\<close>

definition always :: "attempt_env \<Rightarrow> int \<Rightarrow> attempt_env" where
  "always env attempt = env"

definition status_request :: prepared_request where
  "status_request =
     \<lparr>requestDescriptor =
        \<lparr>http_method = ''GET'', url = ''https://api.syncteams.studio/api/v1/status?taskId=task-1'',
         body = None\<rparr>,
      has_signal = False, timeoutMs = 30000, retry = default_retry\<rparr>"


definition narrow_request :: prepared_request where
  "narrow_request = status_request\<lparr>retry := default_retry\<lparr>retryOnStatuses := [429]\<rparr>\<rparr>"

definition timed_out :: attempt_env where
  "timed_out =
     \<lparr>fetch_result = Inl (DOMException ''AbortError'' ''This operation was aborted''),
      timer_fired = True, caller_aborted = False\<rparr>"


definition server_error :: response where
  "server_error =
     \<lparr>response_status = 500, response_statusText = ''Internal Server Error'',
      response_headers = [(''content-type'', ''text/plain'')],
      response_json = Inl (JsError ''Unexpected token b in JSON''),
      response_text = Inr ''boom''\<rparr>"

definition answers :: "response \<Rightarrow> attempt_env" where
  "answers r = \<lparr>fetch_result = Inr r, timer_fired = False, caller_aborted = False\<rparr>"

definition task_record :: "WorkflowStatus \<Rightarrow> TaskStatusResponse" where
  "task_record s = \<lparr>taskId = ''task-1'', status = s, eventLogs = Some []\<rparr>"

definition seen :: "WorkflowStatus \<Rightarrow> int \<Rightarrow> poll_env" where
  "seen s t =
     \<lparr>aborted_before_poll = False, status_result = Inr (task_record s), now_after_poll = t,
      aborted_during_sleep = False\<rparr>"

definition watching :: WaitForCompletionOptions where
  "watching =
     \<lparr>pollIntervalMs = Some 0, maxWaitTimeMs = None, terminalStatuses = None,
      exitOnWaiting = None, signal = False, onUpdate = True\<rparr>"

definition impatient :: WaitForCompletionOptions where
  "impatient = watching\<lparr>maxWaitTimeMs := Some 5000\<rparr>"

definition zero_wait :: WaitForCompletionOptions where
  "zero_wait = watching\<lparr>maxWaitTimeMs := Some 0\<rparr>"





definition approving :: ExecuteAndWaitOptions where
  "approving = \<lparr>waitOptions = watching, onWaiting = True\<rparr>"

definition scripted :: "int \<Rightarrow> poll_env list \<Rightarrow> wait_world" where
  "scripted t envs = \<lparr>startedAt = t, signal_reason = ThrownUndefined, polls = envs\<rparr>"

definition workflow_one :: ExecuteWorkflowInput where
  "workflow_one = \<lparr>workflowId = ''workflow-1'', input = Serializable (JObject []), uniqueId = None\<rparr>"

definition approval_world :: execute_world where
  "approval_world =
     \<lparr>trigger_response = Inr \<lparr>taskId = ''task-1'', status = PENDING\<rparr>,
      resumes =
        [\<lparr>wait_script = scripted 0 [seen WAITING 1], onWaiting_answer = True\<rparr>,
         \<lparr>wait_script = scripted 2 [seen RUNNING 3, seen COMPLETED 4], onWaiting_answer = True\<rparr>]\<rparr>"

definition declining_world :: execute_world where
  "declining_world =
     \<lparr>trigger_response = Inr \<lparr>taskId = ''task-1'', status = PENDING\<rparr>,
      resumes = [\<lparr>wait_script = scripted 0 [seen WAITING 1], onWaiting_answer = False\<rparr>]\<rparr>"

section \<open>Properties of the transport layer\<close>

text \<open>
  How an attempt ends when \<^verbatim>\<open>fetch\<close> rejects after an abort. On a timeout (the timer has fired,
  the caller has not aborted) the \<^verbatim>\<open>catch\<close> clause gets a fresh error that only tells the
  timeout, the method and the URL. On a caller's abort it gets the rejection itself; when that
  is an \<^verbatim>\<open>AbortError\<close>, the attempt is retried while attempts remain and wrapped otherwise.
\<close>

lemma timeout_attempt:
  assumes "fetch_result env = Inl e" "timer_fired env" "\<not> (has_signal req \<and> caller_aborted env)"
  shows "attempt_body req env attempt =
     catch_clause req attempt
       (JsError (''Request aborted after '' @ toString (timeoutMs req) @ ''ms (''
          @ http_method (requestDescriptor req) @ '' '' @ url (requestDescriptor req) @ '')''))"
  using assms by (auto simp: attempt_body_def performRequest_def)

lemma caller_abort_attempt:
  assumes "fetch_result env = Inl (DOMException ''AbortError'' m)"
    "has_signal req" "caller_aborted env"
  shows "attempt_body req env attempt =
     (if real_of_int attempt < maxAttempts (retry req) \<and> maxAttempts (retry req) > 1
      then Continue
      else Throw (network_error (DOMException ''AbortError'' m) (requestDescriptor req)))"
  using assms by (simp add: attempt_body_def performRequest_def catch_clause_def)

lemma toString_30000: "toString 30000 = ''30000''"
  by (simp add: toString_def digits.simps)

lemma toString_500: "toString 500 = ''500''"
  by (simp add: toString_def digits.simps)

lemma attempt_timed_out:
  "attempt_body status_request timed_out 1 =
     Throw (WorkflowAPIError
       ''Request aborted after 30000ms (GET https://api.syncteams.studio/api/v1/status?taskId=task-1)''
       0 ''NETWORK_ERROR'' [] JNull (requestDescriptor status_request)
       (Some (JsError
         ''Request aborted after 30000ms (GET https://api.syncteams.studio/api/v1/status?taskId=task-1)'')))"
  by (simp add: attempt_body_def status_request_def timed_out_def performRequest_def
      toString_30000 catch_clause_def default_retry_def retryableMessages_def toUpperCase_def
      toUpperCase_char_def network_error_def new_WorkflowAPIError_def)

text \<open>
  Claim C1. A request whose timeout timer fires while the caller has not cancelled should
  count as a transient network failure and be retried while attempts remain. The code does
  not do that: \<^verbatim>\<open>performRequest\<close> replaces the abort by a fresh error with the message
  \<^verbatim>\<open>Request aborted after ...\<close>, which \<^verbatim>\<open>isRetryableNetworkError\<close> does not recognise. Under
  the default policy (three attempts) a status request that times out on its first attempt
  makes that one attempt, sleeps for no backoff and fails with a status-0
  \<^verbatim>\<open>NETWORK_ERROR\<close>.
\<close>

theorem timeout_fails_without_retry:
  "request status_request (always timed_out) =
     \<lparr>transport_events = [Fetch 1],
      outcome = Inl (WorkflowAPIError
        ''Request aborted after 30000ms (GET https://api.syncteams.studio/api/v1/status?taskId=task-1)''
        0 ''NETWORK_ERROR'' [] JNull (requestDescriptor status_request)
        (Some (JsError
          ''Request aborted after 30000ms (GET https://api.syncteams.studio/api/v1/status?taskId=task-1)'')))\<rparr>"
proof -
  have "real_of_int 1 \<le> maxAttempts (retry status_request)"
    by (simp add: status_request_def default_retry_def)
  then show ?thesis
    unfolding request_def
    by (subst request_loop.simps) (simp add: attempt_timed_out always_def)
qed




lemma attempt_body_retry_status:
  assumes "fetch_result env = Inr r" "\<not> ok r"
    "real_of_int attempt < maxAttempts (retry req)"
    "shouldRetry (response_status r) (retry req)"
  shows "attempt_body req env attempt = Continue"
  using assms by (simp add: attempt_body_def performRequest_def)

lemma attempt_body_last_status:
  assumes "fetch_result env = Inr r" "\<not> ok r"
    "\<not> real_of_int attempt < maxAttempts (retry req)"
  shows "attempt_body req env attempt = Throw (toWorkflowError r (requestDescriptor req))"
  using assms by (simp add: attempt_body_def performRequest_def catch_clause_def)

lemma attempt_body_no_retry_status:
  assumes "fetch_result env = Inr r" "\<not> ok r"
    "\<not> shouldRetry (response_status r) (retry req)"
  shows "attempt_body req env attempt = Throw (toWorkflowError r (requestDescriptor req))"
  using assms by (simp add: attempt_body_def performRequest_def catch_clause_def)

lemma server_error_facts:
  "fetch_result (always (answers server_error) n) = Inr server_error"
  "response_status server_error = 500"
  "\<not> ok server_error"
  by (simp_all add: always_def answers_def server_error_def ok_def)

lemma toWorkflowError_server_error:
  "toWorkflowError server_error descriptor =
     WorkflowAPIError ''500 Internal Server Error: boom'' 500 ''Internal Server Error''
       [(''content-type'', ''text/plain'')] (JString ''boom'') descriptor None"
  by (simp add: toWorkflowError_def server_error_def parseErrorBody_def content_type_is_json_def
      Headers_get_def Headers_has_def same_name_def toLowerCase_def toLowerCase_char_def
      values_of_def nullish_or_def buildErrorMessage_def toString_500 new_WorkflowAPIError_def
      Headers_entries_def Object_entries_forEach_assign_def)

text \<open>
  Claim C3, as stated, fails on a policy whose \<^verbatim>\<open>retryOnStatuses\<close> leaves out 500: with
  \<^verbatim>\<open>maxAttempts = 3\<close> and \<^verbatim>\<open>retryOnStatuses = [429]\<close> a server that always answers 500 is
  asked once.
\<close>

theorem http_500_outside_retryOnStatuses_one_attempt:
  "maxAttempts (retry narrow_request) = 3
   \<and> response_status server_error = 500
   \<and> transport_events (request narrow_request (always (answers server_error))) = [Fetch 1]"
proof -
  have m: "maxAttempts (retry narrow_request) = 3"
    by (simp add: narrow_request_def status_request_def default_retry_def)
  have "\<not> shouldRetry (response_status server_error) (retry narrow_request)"
    by (simp add: shouldRetry_def narrow_request_def server_error_def)
  from attempt_body_no_retry_status [OF server_error_facts(1) server_error_facts(3) this]
  have "attempt_body narrow_request (always (answers server_error) 1) 1 =
      Throw (toWorkflowError server_error (requestDescriptor narrow_request))" .
  then have "transport_events (request_loop narrow_request (always (answers server_error)) 1) = [Fetch 1]"
    by (subst request_loop.simps) (simp add: m)
  then show ?thesis
    using m by (simp add: request_def server_error_facts(2))
qed

text \<open>
  Claim C3, amended. Under a retry policy with \<^verbatim>\<open>maxAttempts = 3\<close> whose \<^verbatim>\<open>retryOnStatuses\<close>
  contain 500 (as the default set does), a call that receives HTTP 500 on every attempt
  makes exactly three attempts; before re-attempt \<open>n + 1\<close> it sleeps
  \<open>min (initialDelayMs * backoffFactor ^ (n - 1)) maxDelayMs\<close>; it then fails with the error
  built from the third response, whose status, status text, headers and parsed body it
  carries.
\<close>

theorem http_500_three_attempts:
  assumes max: "maxAttempts (retry req) = 3"
    and retryable: "500 \<in> set (retryOnStatuses (retry req))"
    and r1: "fetch_result (world 1) = Inr r1" "response_status r1 = 500"
    and r2: "fetch_result (world 2) = Inr r2" "response_status r2 = 500"
    and r3: "fetch_result (world 3) = Inr r3" "response_status r3 = 500"
  shows "request req world =
     \<lparr>transport_events =
        [Fetch 1,
         Backoff (min (initialDelayMs (retry req) * backoffFactor (retry req) ^ 0)
                      (maxDelayMs (retry req))),
         Fetch 2,
         Backoff (min (initialDelayMs (retry req) * backoffFactor (retry req) ^ 1)
                      (maxDelayMs (retry req))),
         Fetch 3],
      outcome = Inl (toWorkflowError r3 (requestDescriptor req))\<rparr>
    \<and> error_status (toWorkflowError r3 (requestDescriptor req)) = 500
    \<and> error_statusText (toWorkflowError r3 (requestDescriptor req)) = response_statusText r3
    \<and> error_headers (toWorkflowError r3 (requestDescriptor req)) =
        normalizeHeaders (Some (FromHeaders (response_headers r3)))
    \<and> error_data (toWorkflowError r3 (requestDescriptor req)) = parseErrorBody r3"
proof -
  have nok: "\<not> ok r1" "\<not> ok r2" "\<not> ok r3"
    using r1 r2 r3 by (simp_all add: ok_def)
  have sr: "shouldRetry 500 (retry req)"
    using retryable by (simp add: shouldRetry_def)
  have b1: "attempt_body req (world 1) 1 = Continue"
    using attempt_body_retry_status [OF r1(1) nok(1), of 1 req] sr r1(2) max by simp
  have b2: "attempt_body req (world 2) 2 = Continue"
    using attempt_body_retry_status [OF r2(1) nok(2), of 2 req] sr r2(2) max by simp
  have b3: "attempt_body req (world 3) 3 = Throw (toWorkflowError r3 (requestDescriptor req))"
    using attempt_body_last_status [OF r3(1) nok(3), of 3 req] max by simp
  have l3: "request_loop req world 3 =
      \<lparr>transport_events = [Fetch 3], outcome = Inl (toWorkflowError r3 (requestDescriptor req))\<rparr>"
    by (subst request_loop.simps) (simp add: max b3)
  have l2: "request_loop req world 2 =
      \<lparr>transport_events = [Fetch 2, Backoff (delayWithBackoff 2 (retry req)), Fetch 3],
       outcome = Inl (toWorkflowError r3 (requestDescriptor req))\<rparr>"
    by (subst request_loop.simps) (simp add: max b2 l3)
  have l1: "request_loop req world 1 =
      \<lparr>transport_events = [Fetch 1, Backoff (delayWithBackoff 1 (retry req)),
         Fetch 2, Backoff (delayWithBackoff 2 (retry req)), Fetch 3],
       outcome = Inl (toWorkflowError r3 (requestDescriptor req))\<rparr>"
    by (subst request_loop.simps) (simp add: max b1 l2)
  have d: "delayWithBackoff 1 (retry req) =
        min (initialDelayMs (retry req) * backoffFactor (retry req) ^ 0) (maxDelayMs (retry req))"
    "delayWithBackoff 2 (retry req) =
        min (initialDelayMs (retry req) * backoffFactor (retry req) ^ 1) (maxDelayMs (retry req))"
    by (simp_all add: delayWithBackoff_def)
  show ?thesis
    using l1 d r3(2)
    by (simp add: request_def toWorkflowError_def new_WorkflowAPIError_def Let_def)
qed

theorem http_500_three_attempts_witness:
  "request status_request (always (answers server_error)) =
     \<lparr>transport_events = [Fetch 1, Backoff 1000, Fetch 2, Backoff 2000, Fetch 3],
      outcome = Inl (WorkflowAPIError ''500 Internal Server Error: boom'' 500
        ''Internal Server Error'' [(''content-type'', ''text/plain'')] (JString ''boom'')
        (requestDescriptor status_request) None)\<rparr>"
proof -
  have m: "maxAttempts (retry status_request) = 3"
    by (simp add: status_request_def default_retry_def)
  have s: "500 \<in> set (retryOnStatuses (retry status_request))"
    by (simp add: status_request_def default_retry_def DEFAULT_RETRYABLE_STATUSES_def range_def)
  have p: "initialDelayMs (retry status_request) = 1000"
    "backoffFactor (retry status_request) = 2" "maxDelayMs (retry status_request) = 30000"
    by (simp_all add: status_request_def default_retry_def)
  show ?thesis
    using http_500_three_attempts [OF m s server_error_facts(1,2) server_error_facts(1,2)
        server_error_facts(1,2)]
    by (simp add: p toWorkflowError_server_error)
qed

subsection \<open>Request headers\<close>

lemma Headers_values_overwrite:
  "Headers_has name h \<Longrightarrow> values_of name (Headers_overwrite name v h) = [v]"
proof (induction h)
  case Nil
  then show ?case by (simp add: Headers_has_def)
next
  case (Cons a h)
  obtain n w where a: "a = (n, w)" by (cases a)
  have none: "filter (\<lambda>(n', v'). same_name n' name) (filter (\<lambda>(n', v'). \<not> same_name n' name) h) = []"
    by (induction h) auto
  show ?case
    using Cons a none by (auto simp: Headers_has_def values_of_def)
qed

lemma Headers_has_overwrite:
  "Headers_has name h \<Longrightarrow> Headers_has name (Headers_overwrite name v h)"
  by (induction h) (auto simp: Headers_has_def)

text \<open>
  A header set on a \<^verbatim>\<open>Headers\<close> object replaces every earlier entry of that name, whatever
  its letter case: this is how per-call headers win over the defaults.
\<close>

lemma Headers_get_set: "Headers_get name (Headers_set name v h) = Some v"
proof (cases "Headers_has name h")
  case True
  then show ?thesis
    by (simp add: Headers_get_def Headers_set_def Headers_has_overwrite Headers_values_overwrite)
next
  case False
  then have none: "filter (\<lambda>(n, v). same_name n name) h = []"
    by (induction h) (auto simp: Headers_has_def)
  have "find (\<lambda>(n, v). same_name n name) h = None"
    using False by (auto simp: Headers_has_def find_None_iff list_ex_iff)
  then show ?thesis
    using False none
    by (simp add: Headers_get_def Headers_set_def Headers_append_def Headers_has_def
        values_of_def same_name_def)
qed

lemma merged_with_accept:
  "mergeHeaders (buildDefaultHeaders ''sts_test_key'' (Some [(''accept'', ''text/plain'')]) None)
      None None =
     [(''Accept'', ''application/json''), (''User-Agent'', ''syncteams-sdk/0.1.0''),
      (''x-api-key'', ''sts_test_key''), (''Accept'', ''text/plain'')]"
  by (simp add: mergeHeaders_def buildDefaultHeaders_def Object_entries_forEach_assign_def
      new_Headers_def Headers_append_def same_name_def toLowerCase_def toLowerCase_char_def
      buildUserAgent_def SDK_VERSION_def)

text \<open>
  Claim C8. Headers should merge as built-in defaults, then client-wide headers, then
  per-call headers, a later entry winning over an earlier one of the same name compared
  case-insensitively. \<^verbatim>\<open>buildDefaultHeaders\<close> merges the client-wide headers into a plain
  object, whose keys are case-sensitive: a client-wide \<^verbatim>\<open>accept\<close> does not replace the built-in
  \<^verbatim>\<open>Accept\<close>. Both entries reach the \<^verbatim>\<open>Headers\<close> object, which appends them, and the request
  goes out with the two values joined, not with the later one.
\<close>

theorem client_header_of_other_case_is_joined:
  "buildDefaultHeaders ''sts_test_key'' (Some [(''accept'', ''text/plain'')]) None =
     [(''Accept'', ''application/json''), (''User-Agent'', ''syncteams-sdk/0.1.0''),
      (''x-api-key'', ''sts_test_key''), (''accept'', ''text/plain'')]
   \<and> Headers_get ''accept''
       (mergeHeaders (buildDefaultHeaders ''sts_test_key'' (Some [(''accept'', ''text/plain'')]) None)
          None None) = Some ''application/json, text/plain''"
proof -
  have b: "buildDefaultHeaders ''sts_test_key'' (Some [(''accept'', ''text/plain'')]) None =
     [(''Accept'', ''application/json''), (''User-Agent'', ''syncteams-sdk/0.1.0''),
      (''x-api-key'', ''sts_test_key''), (''accept'', ''text/plain'')]"
    by (simp add: buildDefaultHeaders_def Object_entries_forEach_assign_def buildUserAgent_def
        SDK_VERSION_def)
  have g: "Headers_get ''accept''
       [(''Accept'', ''application/json''), (''User-Agent'', ''syncteams-sdk/0.1.0''),
        (''x-api-key'', ''sts_test_key''), (''Accept'', ''text/plain'')] =
       Some ''application/json, text/plain''"
    by (simp add: Headers_get_def Headers_has_def same_name_def toLowerCase_def
        toLowerCase_char_def values_of_def)
  have m: "Headers_get ''accept''
       (mergeHeaders (buildDefaultHeaders ''sts_test_key'' (Some [(''accept'', ''text/plain'')]) None)
          None None) = Some ''application/json, text/plain''"
    unfolding merged_with_accept by (rule g)
  show ?thesis by (rule conjI [OF b m])
qed

section \<open>Properties of waiting for completion\<close>

lemmas wait_eval =
  waitForCompletion_def assertString_def trim_def isWhitespace_def poll_iteration_def
  getTaskStatus_def is_stopping_def nullish_or_def TERMINAL_STATUSES_def sleep_def Let_def
  DEFAULT_MAX_WAIT_TIME_MS_def DEFAULT_POLL_INTERVAL_MS_def seen_def task_record_def
  watching_def impatient_def zero_wait_def scripted_def

lemma observed_append: "observed (xs @ ys) = observed xs @ observed ys"
  by (induction xs rule: observed.induct) auto

lemma updates_of_append: "updates_of (xs @ ys) = updates_of xs @ updates_of ys"
  by (induction xs rule: updates_of.induct) auto

lemma status_changes_append:
  "status_changes l (xs @ ys) =
     status_changes l xs @ status_changes (if xs = [] then l else Some (status (last xs))) ys"
  by (induction xs arbitrary: l) auto

lemma fetched_append: "fetched (xs @ ys) = fetched xs @ fetched ys"
  by (induction xs rule: fetched.induct) auto

lemma observed_set: "st \<in> set (observed evs) \<longleftrightarrow> Poll (Inr st) \<in> set evs"
  by (induction evs rule: observed.induct) auto

lemma take_three: "take 3 xs = [a, b, c] \<Longrightarrow> \<exists>zs. xs = a # b # c # zs"
  by (cases xs; cases "tl xs"; cases "tl (tl xs)") (auto simp: numeral_3_eq_3)

lemma valid_taskId: "trim tid \<noteq> [] \<Longrightarrow> assertString tid ''taskId'' = None"
  by (simp add: assertString_def)

subsection \<open>One iteration\<close>

lemma poll_iteration_updates:
  assumes "poll_iteration opts tid started reason lastStatus env = (evs, ctl)"
  shows "updates_of evs = (if onUpdate opts then status_changes lastStatus (observed evs) else [])
       \<and> (\<forall>l. ctl = Inr l \<longrightarrow>
             l = (if observed evs = [] then lastStatus else Some (status (last (observed evs)))))"
  using assms
  by (auto simp: poll_iteration_def getTaskStatus_def Let_def observed_append updates_of_append
      sleep_def split: if_splits sum.splits option.splits)

lemma poll_iteration_facts:
  assumes "poll_iteration opts tid started reason lastStatus env = (evs, ctl)"
  shows "evs = [] \<or> is_Poll (hd evs)"
    and "\<forall>st. Poll (Inr st) \<in> set evs \<and> is_stopping opts (status st)
            \<longrightarrow> ctl = Inl (ReachedStoppingStatus, Inr st)"
    and "\<forall>r. ctl = Inl (DeadlinePassed, r) \<longrightarrow>
            (\<exists>st. observed evs = [st] \<and> \<not> is_stopping opts (status st)
               \<and> r = Inl (ApiError (poll_timeout_error tid
                        (nullish_or (maxWaitTimeMs opts) DEFAULT_MAX_WAIT_TIME_MS) (status st))))"
    and "\<forall>l. ctl = Inr l \<longrightarrow> evs \<noteq> []"
  using assms
  by (auto simp: poll_iteration_def getTaskStatus_def Let_def observed_append sleep_def
      split: if_splits sum.splits option.splits)

lemma poll_iteration_deadline:
  assumes "poll_iteration opts tid started reason lastStatus env = (evs, ctl)"
  shows "\<forall>e. DeadlineCheck e \<in> set evs
            \<and> e \<ge> nullish_or (maxWaitTimeMs opts) DEFAULT_MAX_WAIT_TIME_MS
          \<longrightarrow> (\<exists>r. ctl = Inl (DeadlinePassed, r))"
  using assms
  by (auto simp: poll_iteration_def getTaskStatus_def Let_def sleep_def
      split: if_splits sum.splits option.splits)

lemma keeps_polling_iteration:
  assumes "trim tid \<noteq> []" "keeps_polling opts started env"
  shows "\<exists>st. status_result env = Inr st \<and> \<not> is_stopping opts (status st) \<and>
     poll_iteration opts tid started reason lastStatus env =
       (Poll (Inr st) # (if Some (status st) \<noteq> lastStatus \<and> onUpdate opts then [Update st] else [])
          @ [DeadlineCheck (now_after_poll env - started),
             Sleep (nullish_or (pollIntervalMs opts) DEFAULT_POLL_INTERVAL_MS)],
        Inr (Some (status st)))"
  using assms
  by (auto simp: keeps_polling_def poll_iteration_def getTaskStatus_def valid_taskId Let_def
      sleep_def split: sum.splits)

lemma deadline_iteration:
  assumes "trim tid \<noteq> []" "\<not> (signal opts \<and> aborted_before_poll env)"
    "status_result env = Inr st" "\<not> is_stopping opts (status st)"
    "now_after_poll env - started \<ge> nullish_or (maxWaitTimeMs opts) DEFAULT_MAX_WAIT_TIME_MS"
  shows "poll_iteration opts tid started reason lastStatus env =
       (Poll (Inr st) # (if Some (status st) \<noteq> lastStatus \<and> onUpdate opts then [Update st] else [])
          @ [DeadlineCheck (now_after_poll env - started)],
        Inl (DeadlinePassed, Inl (ApiError (poll_timeout_error tid
               (nullish_or (maxWaitTimeMs opts) DEFAULT_MAX_WAIT_TIME_MS) (status st)))))"
  using assms
  by (auto simp: poll_iteration_def getTaskStatus_def valid_taskId Let_def)

lemma stopping_iteration:
  assumes "trim tid \<noteq> []" "\<not> (signal opts \<and> aborted_before_poll env)"
    "status_result env = Inr st" "is_stopping opts (status st)"
  shows "poll_iteration opts tid started reason lastStatus env =
       (Poll (Inr st) # (if Some (status st) \<noteq> lastStatus \<and> onUpdate opts then [Update st] else []),
        Inl (ReachedStoppingStatus, Inr st))"
  using assms
  by (auto simp: poll_iteration_def getTaskStatus_def valid_taskId Let_def)

lemma default_terminal_statuses:
  "terminalStatuses opts = None \<Longrightarrow> \<not> is_stopping opts PENDING"
  "terminalStatuses opts = None \<Longrightarrow> \<not> is_stopping opts RUNNING"
  "terminalStatuses opts = None \<Longrightarrow> is_stopping opts COMPLETED"
  by (simp_all add: is_stopping_def nullish_or_def TERMINAL_STATUSES_def)

subsection \<open>The loop\<close>

lemma poll_loop_updates:
  "updates_of (wait_events (poll_loop opts tid started reason lastStatus envs)) =
     (if onUpdate opts
      then status_changes lastStatus
             (observed (wait_events (poll_loop opts tid started reason lastStatus envs)))
      else [])"
proof (induction envs arbitrary: lastStatus)
  case Nil
  then show ?case by simp
next
  case (Cons env envs)
  obtain evs ctl where it: "poll_iteration opts tid started reason lastStatus env = (evs, ctl)"
    by (cases "poll_iteration opts tid started reason lastStatus env")
  note u = poll_iteration_updates [OF it]
  show ?case
  proof (cases ctl)
    case (Inl fin)
    then show ?thesis using it u by (cases fin) simp
  next
    case (Inr l)
    then show ?thesis
      using it u Cons.IH [of l]
      by (simp add: Let_def updates_of_append observed_append status_changes_append)
  qed
qed

lemma poll_loop_facts:
  "(wait_events (poll_loop opts tid started reason lastStatus envs) = []
      \<or> is_Poll (hd (wait_events (poll_loop opts tid started reason lastStatus envs))))
   \<and> (\<forall>st. Poll (Inr st) \<in> set (wait_events (poll_loop opts tid started reason lastStatus envs))
            \<and> is_stopping opts (status st)
        \<longrightarrow> wait_exit (poll_loop opts tid started reason lastStatus envs) = Some ReachedStoppingStatus
          \<and> wait_result (poll_loop opts tid started reason lastStatus envs) = Some (Inr st))
   \<and> (wait_exit (poll_loop opts tid started reason lastStatus envs) = Some DeadlinePassed \<longrightarrow>
        observed (wait_events (poll_loop opts tid started reason lastStatus envs)) \<noteq> []
        \<and> \<not> is_stopping opts
              (status (last (observed (wait_events (poll_loop opts tid started reason lastStatus envs)))))
        \<and> wait_result (poll_loop opts tid started reason lastStatus envs) =
            Some (Inl (ApiError (poll_timeout_error tid
               (nullish_or (maxWaitTimeMs opts) DEFAULT_MAX_WAIT_TIME_MS)
               (status (last (observed
                  (wait_events (poll_loop opts tid started reason lastStatus envs)))))))))"
proof (induction envs arbitrary: lastStatus)
  case Nil
  then show ?case by simp
next
  case (Cons env envs)
  obtain evs ctl where it: "poll_iteration opts tid started reason lastStatus env = (evs, ctl)"
    by (cases "poll_iteration opts tid started reason lastStatus env")
  note f = poll_iteration_facts [OF it]
  show ?case
  proof (cases ctl)
    case (Inl fin)
    obtain ex res where e: "fin = (ex, res)" by (cases fin)
    show ?thesis using it f Inl e by auto
  next
    case (Inr l)
    have ne: "evs \<noteq> []" using f(4) Inr by simp
    have ns: "\<forall>st. Poll (Inr st) \<in> set evs \<longrightarrow> \<not> is_stopping opts (status st)"
      using f(2) Inr by auto
    show ?thesis
      using it Inr ne ns f(1) Cons.IH [of l]
      by (auto simp: Let_def observed_append)
  qed
qed

lemma poll_loop_keeps_polling:
  assumes "trim tid \<noteq> []" "list_all (keeps_polling opts started) before"
  shows "\<exists>evs l. \<forall>rest.
      wait_events (poll_loop opts tid started reason lastStatus (before @ rest))
         = evs @ wait_events (poll_loop opts tid started reason l rest)
    \<and> wait_exit (poll_loop opts tid started reason lastStatus (before @ rest))
         = wait_exit (poll_loop opts tid started reason l rest)
    \<and> wait_result (poll_loop opts tid started reason lastStatus (before @ rest))
         = wait_result (poll_loop opts tid started reason l rest)"
  using assms(2)
proof (induction before arbitrary: lastStatus)
  case Nil
  show ?case by (rule exI [of _ "[]"], rule exI [of _ lastStatus]) simp
next
  case (Cons env before)
  from Cons.prems have k: "keeps_polling opts started env"
    and r: "list_all (keeps_polling opts started) before" by simp_all
  from keeps_polling_iteration [OF assms(1) k, of reason lastStatus]
  obtain st where it: "poll_iteration opts tid started reason lastStatus env =
       (Poll (Inr st) # (if Some (status st) \<noteq> lastStatus \<and> onUpdate opts then [Update st] else [])
          @ [DeadlineCheck (now_after_poll env - started),
             Sleep (nullish_or (pollIntervalMs opts) DEFAULT_POLL_INTERVAL_MS)],
        Inr (Some (status st)))" by blast
  from Cons.IH [OF r, of "Some (status st)"]
  obtain evs l where ih: "\<forall>rest.
      wait_events (poll_loop opts tid started reason (Some (status st)) (before @ rest))
         = evs @ wait_events (poll_loop opts tid started reason l rest)
    \<and> wait_exit (poll_loop opts tid started reason (Some (status st)) (before @ rest))
         = wait_exit (poll_loop opts tid started reason l rest)
    \<and> wait_result (poll_loop opts tid started reason (Some (status st)) (before @ rest))
         = wait_result (poll_loop opts tid started reason l rest)" by blast
  show ?case
    apply (rule exI [of _ "(Poll (Inr st)
          # (if Some (status st) \<noteq> lastStatus \<and> onUpdate opts then [Update st] else [])
          @ [DeadlineCheck (now_after_poll env - started),
             Sleep (nullish_or (pollIntervalMs opts) DEFAULT_POLL_INTERVAL_MS)]) @ evs"])
    apply (rule exI [of _ l])
    using it ih apply (simp add: Let_def)
    done
qed

lemma poll_loop_deadline:
  assumes "DeadlineCheck e \<in> set (wait_events (poll_loop opts tid started reason lastStatus envs))"
    and "e \<ge> nullish_or (maxWaitTimeMs opts) DEFAULT_MAX_WAIT_TIME_MS"
  shows "wait_exit (poll_loop opts tid started reason lastStatus envs) = Some DeadlinePassed"
  using assms(1)
proof (induction envs arbitrary: lastStatus)
  case Nil
  then show ?case by simp
next
  case (Cons env envs)
  obtain evs ctl where it: "poll_iteration opts tid started reason lastStatus env = (evs, ctl)"
    by (cases "poll_iteration opts tid started reason lastStatus env")
  note d = poll_iteration_deadline [OF it, rule_format, of e]
  show ?case
  proof (cases ctl)
    case (Inl fin)
    obtain ex res where f: "fin = (ex, res)" by (cases fin)
    show ?thesis using Cons.prems it Inl f d assms(2) by auto
  next
    case (Inr l)
    have "DeadlineCheck e \<notin> set evs" using d Inr assms(2) by auto
    then show ?thesis
      using Cons.prems it Inr Cons.IH [of l] by (auto simp: Let_def)
  qed
qed

text \<open>
  A wait whose first status request was answered with a record has a well-formed task id
  and a world whose first entry gave that answer uncancelled; when more answers follow, that
  iteration went round and the answers that follow are those of the rest of the loop.
\<close>

lemma poll_loop_fetched_step:
  assumes "fetched (wait_events (poll_loop opts tid started reason lastStatus envs)) = Inr st # others"
  shows "\<exists>env rest. envs = env # rest \<and> trim tid \<noteq> []
      \<and> \<not> (signal opts \<and> aborted_before_poll env) \<and> status_result env = Inr st
      \<and> (others \<noteq> [] \<longrightarrow> keeps_polling opts started env
            \<and> fetched (wait_events (poll_loop opts tid started reason (Some (status st)) rest))
                = others)"
proof (cases envs)
  case Nil
  then show ?thesis using assms by simp
next
  case (Cons env rest)
  obtain evs ctl where it: "poll_iteration opts tid started reason lastStatus env = (evs, ctl)"
    by (cases "poll_iteration opts tid started reason lastStatus env")
  show ?thesis
    using assms Cons it
    by (auto simp: poll_iteration_def getTaskStatus_def assertString_def Let_def sleep_def
        keeps_polling_def fetched_append split: if_splits sum.splits option.splits)
qed

subsection \<open>Poll convergence\<close>

text \<open>
  In a world whose first three entries answer \<open>PENDING\<close>, \<open>RUNNING\<close>, \<open>COMPLETED\<close>, where the
  first two iterations go round and the third poll is not cancelled, the loop runs as follows.
\<close>

lemma three_polls_in_world:
  assumes tid: "trim tid \<noteq> []"
    and defaults: "terminalStatuses opts = None"
    and callback: "onUpdate opts"
    and script: "envs = e1 # e2 # e3 # later"
    and r1: "status_result e1 = Inr r1" "status r1 = PENDING"
    and r2: "status_result e2 = Inr r2" "status r2 = RUNNING"
    and r3: "status_result e3 = Inr r3" "status r3 = COMPLETED"
    and k1: "keeps_polling opts started e1"
    and k2: "keeps_polling opts started e2"
    and a3: "\<not> (signal opts \<and> aborted_before_poll e3)"
  shows "poll_loop opts tid started reason None envs =
     \<lparr>wait_events =
       [Poll (Inr r1), Update r1, DeadlineCheck (now_after_poll e1 - started),
        Sleep (nullish_or (pollIntervalMs opts) DEFAULT_POLL_INTERVAL_MS),
        Poll (Inr r2), Update r2, DeadlineCheck (now_after_poll e2 - started),
        Sleep (nullish_or (pollIntervalMs opts) DEFAULT_POLL_INTERVAL_MS),
        Poll (Inr r3), Update r3],
      wait_exit = Some ReachedStoppingStatus,
      wait_result = Some (Inr r3)\<rparr>"
proof -
  have i1: "poll_iteration opts tid started reason None e1 =
      ([Poll (Inr r1), Update r1, DeadlineCheck (now_after_poll e1 - started),
        Sleep (nullish_or (pollIntervalMs opts) DEFAULT_POLL_INTERVAL_MS)], Inr (Some PENDING))"
    using keeps_polling_iteration [OF tid k1, of reason None] r1 callback by auto
  have i2: "poll_iteration opts tid started reason (Some PENDING) e2 =
      ([Poll (Inr r2), Update r2, DeadlineCheck (now_after_poll e2 - started),
        Sleep (nullish_or (pollIntervalMs opts) DEFAULT_POLL_INTERVAL_MS)], Inr (Some RUNNING))"
    using keeps_polling_iteration [OF tid k2, of reason "Some PENDING"] r2 callback by auto
  have s3: "is_stopping opts (status r3)"
    using r3 default_terminal_statuses(3) [OF defaults] by simp
  have i3: "poll_iteration opts tid started reason (Some RUNNING) e3 =
      ([Poll (Inr r3), Update r3], Inl (ReachedStoppingStatus, Inr r3))"
    using stopping_iteration [OF tid a3 r3(1) s3, of started reason "Some RUNNING"] r3 callback
    by simp
  show ?thesis
    using i1 i2 i3 script by simp
qed

text \<open>
  Claim C4. For a wait, with the default terminal statuses and an update callback, whose
  status requests are answered with \<open>PENDING\<close>, \<open>RUNNING\<close>, \<open>COMPLETED\<close> in turn (these are the
  first three answers it gets): these three are all the status calls it issues, the callback
  is invoked three times, with those records in that order, and the \<open>COMPLETED\<close> record is
  returned.
\<close>

theorem waitForCompletion_pending_running_completed:
  assumes defaults: "terminalStatuses opts = None"
    and callback: "onUpdate opts"
    and answers: "take 3 (fetched (wait_events (waitForCompletion tid opts world)))
                    = [Inr r1, Inr r2, Inr r3]"
    and statuses: "status r1 = PENDING" "status r2 = RUNNING" "status r3 = COMPLETED"
  shows "fetched (wait_events (waitForCompletion tid opts world)) = [Inr r1, Inr r2, Inr r3]
    \<and> updates_of (wait_events (waitForCompletion tid opts world)) = [r1, r2, r3]
    \<and> wait_result (waitForCompletion tid opts world) = Some (Inr r3)"
proof -
  let ?s = "startedAt world" and ?r = "signal_reason world"
  have valid: "assertString tid ''taskId'' = None"
    using answers by (cases "assertString tid ''taskId''") (simp_all add: waitForCompletion_def)
  then have run: "waitForCompletion tid opts world = poll_loop opts tid ?s ?r None (polls world)"
    by (simp add: waitForCompletion_def)
  from take_three [OF answers] obtain zs where
    all: "fetched (wait_events (poll_loop opts tid ?s ?r None (polls world)))
            = Inr r1 # Inr r2 # Inr r3 # zs"
    using run by auto
  from poll_loop_fetched_step [OF all] obtain e1 rest1 where
    w1: "polls world = e1 # rest1" "trim tid \<noteq> []" "status_result e1 = Inr r1"
      "keeps_polling opts ?s e1"
      "fetched (wait_events (poll_loop opts tid ?s ?r (Some (status r1)) rest1))
         = Inr r2 # Inr r3 # zs"
    by auto
  from poll_loop_fetched_step [OF w1(5)] obtain e2 rest2 where
    w2: "rest1 = e2 # rest2" "status_result e2 = Inr r2" "keeps_polling opts ?s e2"
      "fetched (wait_events (poll_loop opts tid ?s ?r (Some (status r2)) rest2)) = Inr r3 # zs"
    by auto
  from poll_loop_fetched_step [OF w2(4)] obtain e3 rest3 where
    w3: "rest2 = e3 # rest3" "status_result e3 = Inr r3"
      "\<not> (signal opts \<and> aborted_before_poll e3)"
    by auto
  have script: "polls world = e1 # e2 # e3 # rest3"
    using w1(1) w2(1) w3(1) by simp
  note three_polls_in_world [OF w1(2) defaults callback script w1(3) statuses(1) w2(2)
      statuses(2) w3(2) statuses(3) w1(4) w2(3) w3(3), of ?r]
  then show ?thesis
    using run by simp
qed

theorem waitForCompletion_pending_running_completed_witness:
  "fetched (wait_events (waitForCompletion ''task-1'' watching
       (scripted 1000 [seen PENDING 1001, seen RUNNING 1002, seen COMPLETED 1003]))) =
       [Inr (task_record PENDING), Inr (task_record RUNNING), Inr (task_record COMPLETED)]
   \<and> updates_of (wait_events (waitForCompletion ''task-1'' watching
       (scripted 1000 [seen PENDING 1001, seen RUNNING 1002, seen COMPLETED 1003]))) =
       [task_record PENDING, task_record RUNNING, task_record COMPLETED]
   \<and> wait_result (waitForCompletion ''task-1'' watching
       (scripted 1000 [seen PENDING 1001, seen RUNNING 1002, seen COMPLETED 1003])) =
       Some (Inr (task_record COMPLETED))"
proof -
  have first: "take 3 (fetched (wait_events (waitForCompletion ''task-1'' watching
       (scripted 1000 [seen PENDING 1001, seen RUNNING 1002, seen COMPLETED 1003])))) =
       [Inr (task_record PENDING), Inr (task_record RUNNING), Inr (task_record COMPLETED)]"
    by (simp add: wait_eval)
  have opts: "terminalStatuses watching = None" "onUpdate watching"
    by (simp_all add: watching_def)
  have st: "status (task_record PENDING) = PENDING" "status (task_record RUNNING) = RUNNING"
    "status (task_record COMPLETED) = COMPLETED"
    by (simp_all add: task_record_def)
  show ?thesis
    by (rule waitForCompletion_pending_running_completed [OF opts first st])
qed

subsection \<open>Status observation\<close>

text \<open>
  Claim C5. Within one wait the update callback fires in the order in which the statuses
  were observed and once per change: the records handed to it are exactly the observed
  records whose status differs from the status observed just before, so a poll that repeats
  the preceding status never triggers it. This holds after any number of polls, also for a
  wait that is still going on; without a callback nothing is reported.
\<close>

theorem onUpdate_once_per_status_change:
  "updates_of (wait_events (waitForCompletion tid opts world)) =
     (if onUpdate opts
      then status_changes None (observed (wait_events (waitForCompletion tid opts world)))
      else [])"
proof (cases "assertString tid ''taskId''")
  case None
  then show ?thesis
    using poll_loop_updates [of opts tid "startedAt world" "signal_reason world" None "polls world"]
    by (simp add: waitForCompletion_def)
next
  case (Some error)
  then show ?thesis by (simp add: waitForCompletion_def)
qed

theorem onUpdate_once_per_status_change_witness:
  "updates_of (wait_events (waitForCompletion ''task-1'' watching
       (scripted 1000 [seen PENDING 1001, seen PENDING 1002, seen RUNNING 1003,
                       seen RUNNING 1004, seen COMPLETED 1005]))) =
     [task_record PENDING, task_record RUNNING, task_record COMPLETED]"
proof -
  have "observed (wait_events (waitForCompletion ''task-1'' watching
       (scripted 1000 [seen PENDING 1001, seen PENDING 1002, seen RUNNING 1003,
                       seen RUNNING 1004, seen COMPLETED 1005]))) =
     [task_record PENDING, task_record PENDING, task_record RUNNING, task_record RUNNING,
      task_record COMPLETED]"
    by (simp add: wait_eval)
  then show ?thesis
    using onUpdate_once_per_status_change [of "''task-1''" watching
      "scripted 1000 [seen PENDING 1001, seen PENDING 1002, seen RUNNING 1003,
                       seen RUNNING 1004, seen COMPLETED 1005]"]
    by (simp add: watching_def task_record_def)
qed

subsection \<open>The wait deadline\<close>

text \<open>
  The elapsed time is only computed after a poll that did not stop the wait; a wait in which
  the computed value has reached \<^verbatim>\<open>maxWaitTimeMs\<close> ends there, by the poll timeout.
\<close>

lemma deadline_check_ends_wait:
  assumes check: "DeadlineCheck elapsed \<in> set (wait_events (waitForCompletion tid opts world))"
    and late: "elapsed \<ge> nullish_or (maxWaitTimeMs opts) DEFAULT_MAX_WAIT_TIME_MS"
  shows "wait_exit (waitForCompletion tid opts world) = Some DeadlinePassed
    \<and> observed (wait_events (waitForCompletion tid opts world)) \<noteq> []
    \<and> (\<forall>st \<in> set (observed (wait_events (waitForCompletion tid opts world))).
          \<not> is_stopping opts (status st))
    \<and> wait_result (waitForCompletion tid opts world) =
        Some (Inl (ApiError (poll_timeout_error tid
           (nullish_or (maxWaitTimeMs opts) DEFAULT_MAX_WAIT_TIME_MS)
           (status (last (observed (wait_events (waitForCompletion tid opts world))))))))
    \<and> error_status (poll_timeout_error tid
           (nullish_or (maxWaitTimeMs opts) DEFAULT_MAX_WAIT_TIME_MS)
           (status (last (observed (wait_events (waitForCompletion tid opts world)))))) = 0
    \<and> error_statusText (poll_timeout_error tid
           (nullish_or (maxWaitTimeMs opts) DEFAULT_MAX_WAIT_TIME_MS)
           (status (last (observed (wait_events (waitForCompletion tid opts world))))))
        = ''POLL_TIMEOUT''
    \<and> error_data (poll_timeout_error tid
           (nullish_or (maxWaitTimeMs opts) DEFAULT_MAX_WAIT_TIME_MS)
           (status (last (observed (wait_events (waitForCompletion tid opts world)))))) =
        JObject [(''taskId'', JString tid),
                 (''lastStatus'', JString (status_name
                    (status (last (observed (wait_events (waitForCompletion tid opts world)))))))]"
proof -
  let ?loop = "poll_loop opts tid (startedAt world) (signal_reason world) None (polls world)"
  have valid: "assertString tid ''taskId'' = None"
    using check by (cases "assertString tid ''taskId''") (simp_all add: waitForCompletion_def)
  then have run: "waitForCompletion tid opts world = ?loop"
    by (simp add: waitForCompletion_def)
  have ex: "wait_exit ?loop = Some DeadlinePassed"
    using poll_loop_deadline [OF _ late] check run by simp
  note f = poll_loop_facts [of opts tid "startedAt world" "signal_reason world" None "polls world"]
  have ns: "\<forall>st \<in> set (observed (wait_events ?loop)). \<not> is_stopping opts (status st)"
    using f ex by (auto simp: observed_set)
  show ?thesis
    using f ex ns run
    by (simp add: poll_timeout_error_def new_WorkflowAPIError_def)
qed

text \<open>
  Claim C6. Take a wait with a well-formed task id and a poll of it, not cancelled, that
  observes a status which does not stop the wait, at a moment when the clock has advanced by
  \<^verbatim>\<open>maxWaitTimeMs\<close> or more since the loop began, every iteration before having gone round (not
  cancelled, status not stopping, less than \<^verbatim>\<open>maxWaitTimeMs\<close> elapsed since the loop began). The
  call then fails with the poll-timeout error: a \<^verbatim>\<open>WorkflowAPIError\<close> with status 0 and status
  text \<^verbatim>\<open>POLL_TIMEOUT\<close> whose data hold the task id and the status observed last, that of this
  poll; and no poll has observed a stopping status.
\<close>

theorem waitForCompletion_poll_timeout:
  assumes tid: "trim tid \<noteq> []"
    and script: "polls world = before @ env # later"
    and before: "list_all (keeps_polling opts (startedAt world)) before"
    and alive: "\<not> (signal opts \<and> aborted_before_poll env)"
    and fetched: "status_result env = Inr st"
    and running: "\<not> is_stopping opts (status st)"
    and late: "now_after_poll env - startedAt world
                 \<ge> nullish_or (maxWaitTimeMs opts) DEFAULT_MAX_WAIT_TIME_MS"
  shows "wait_exit (waitForCompletion tid opts world) = Some DeadlinePassed
    \<and> wait_result (waitForCompletion tid opts world) =
        Some (Inl (ApiError (poll_timeout_error tid
           (nullish_or (maxWaitTimeMs opts) DEFAULT_MAX_WAIT_TIME_MS) (status st))))
    \<and> last (observed (wait_events (waitForCompletion tid opts world))) = st
    \<and> (\<forall>seen_before \<in> set (observed (wait_events (waitForCompletion tid opts world))).
          \<not> is_stopping opts (status seen_before))
    \<and> error_status (poll_timeout_error tid
           (nullish_or (maxWaitTimeMs opts) DEFAULT_MAX_WAIT_TIME_MS) (status st)) = 0
    \<and> error_statusText (poll_timeout_error tid
           (nullish_or (maxWaitTimeMs opts) DEFAULT_MAX_WAIT_TIME_MS) (status st)) = ''POLL_TIMEOUT''
    \<and> error_data (poll_timeout_error tid
           (nullish_or (maxWaitTimeMs opts) DEFAULT_MAX_WAIT_TIME_MS) (status st)) =
        JObject [(''taskId'', JString tid), (''lastStatus'', JString (status_name (status st)))]"
proof -
  from poll_loop_keeps_polling [OF tid before, of "signal_reason world" None]
  obtain evs l where pre: "\<forall>rest.
      wait_events (poll_loop opts tid (startedAt world) (signal_reason world) None (before @ rest))
         = evs @ wait_events (poll_loop opts tid (startedAt world) (signal_reason world) l rest)
    \<and> wait_exit (poll_loop opts tid (startedAt world) (signal_reason world) None (before @ rest))
         = wait_exit (poll_loop opts tid (startedAt world) (signal_reason world) l rest)
    \<and> wait_result (poll_loop opts tid (startedAt world) (signal_reason world) None (before @ rest))
         = wait_result (poll_loop opts tid (startedAt world) (signal_reason world) l rest)" by blast
  note it = deadline_iteration [OF tid alive fetched running late, of "signal_reason world" l]
  have fin: "poll_loop opts tid (startedAt world) (signal_reason world) l (env # later) =
     \<lparr>wait_events = Poll (Inr st)
          # (if Some (status st) \<noteq> l \<and> onUpdate opts then [Update st] else [])
          @ [DeadlineCheck (now_after_poll env - startedAt world)],
      wait_exit = Some DeadlinePassed,
      wait_result = Some (Inl (ApiError (poll_timeout_error tid
           (nullish_or (maxWaitTimeMs opts) DEFAULT_MAX_WAIT_TIME_MS) (status st))))\<rparr>"
    using it by simp
  have run: "waitForCompletion tid opts world =
      poll_loop opts tid (startedAt world) (signal_reason world) None (polls world)"
    by (simp add: waitForCompletion_def valid_taskId [OF tid])
  have ex: "wait_exit (poll_loop opts tid (startedAt world) (signal_reason world) None (polls world))
      = Some DeadlinePassed"
    using pre [rule_format, of "env # later"] fin script by simp
  have ns: "\<forall>seen_before \<in> set (observed (wait_events
        (poll_loop opts tid (startedAt world) (signal_reason world) None (polls world)))).
      \<not> is_stopping opts (status seen_before)"
    using poll_loop_facts [of opts tid "startedAt world" "signal_reason world" None "polls world"] ex
    by (auto simp: observed_set)
  show ?thesis
    using pre [rule_format, of "env # later"] fin script ns run
    by (simp add: observed_append poll_timeout_error_def new_WorkflowAPIError_def)
qed

lemma toString_5000: "toString 5000 = ''5000''"
  by (simp add: toString_def digits.simps)

text \<open>
  A wait of at most 5000 milliseconds that starts when the clock reads 10000: the poll at
  12000 goes round, the poll at 16000 finds the deadline passed.
\<close>

theorem waitForCompletion_poll_timeout_witness:
  "wait_result (waitForCompletion ''task-1'' impatient
       (scripted 10000 [seen PENDING 12000, seen RUNNING 16000])) =
     Some (Inl (ApiError (WorkflowAPIError ''Timed out after 5000ms waiting for task task-1'' 0
       ''POLL_TIMEOUT'' []
       (JObject [(''taskId'', JString ''task-1''), (''lastStatus'', JString ''RUNNING'')])
       \<lparr>http_method = ''GET'', url = ''/api/v1/status?taskId=task-1'', body = None\<rparr> None)))
   \<and> last (observed (wait_events (waitForCompletion ''task-1'' impatient
       (scripted 10000 [seen PENDING 12000, seen RUNNING 16000])))) = task_record RUNNING"
  using waitForCompletion_poll_timeout
    [of "''task-1''" "scripted 10000 [seen PENDING 12000, seen RUNNING 16000]"
        "[seen PENDING 12000]" "seen RUNNING 16000" "[]" impatient "task_record RUNNING"]
  by (simp add: trim_def isWhitespace_def impatient_def watching_def scripted_def seen_def
      task_record_def nullish_or_def keeps_polling_def is_stopping_def TERMINAL_STATUSES_def
      poll_timeout_error_def new_WorkflowAPIError_def toString_5000)

text \<open>
  Claim C10. Whatever the options and the world: the first thing a wait does, if it does
  anything, is a status request, so no deadline is evaluated before the first fetch, also with
  \<^verbatim>\<open>maxWaitTimeMs = 0\<close>; a poll that observes a stopping status (a terminal one, or \<open>WAITING\<close>
  with \<^verbatim>\<open>exitOnWaiting\<close>) makes the call return that record, however much time has elapsed;
  and when the call ends by the poll timeout, a status was observed, the last one observed is
  not a stopping one, and it is the one the error carries.
\<close>

theorem waitForCompletion_fetch_before_deadline:
  "(wait_events (waitForCompletion tid opts world) = []
      \<or> is_Poll (hd (wait_events (waitForCompletion tid opts world))))
   \<and> (\<forall>st. Poll (Inr st) \<in> set (wait_events (waitForCompletion tid opts world))
            \<and> is_stopping opts (status st)
        \<longrightarrow> wait_exit (waitForCompletion tid opts world) = Some ReachedStoppingStatus
          \<and> wait_result (waitForCompletion tid opts world) = Some (Inr st))
   \<and> (wait_exit (waitForCompletion tid opts world) = Some DeadlinePassed \<longrightarrow>
        observed (wait_events (waitForCompletion tid opts world)) \<noteq> []
        \<and> \<not> is_stopping opts
              (status (last (observed (wait_events (waitForCompletion tid opts world)))))
        \<and> wait_result (waitForCompletion tid opts world) =
            Some (Inl (ApiError (poll_timeout_error tid
               (nullish_or (maxWaitTimeMs opts) DEFAULT_MAX_WAIT_TIME_MS)
               (status (last (observed (wait_events (waitForCompletion tid opts world)))))))))"
proof (cases "assertString tid ''taskId''")
  case None
  then show ?thesis
    using poll_loop_facts [of opts tid "startedAt world" "signal_reason world" None "polls world"]
    by (simp add: waitForCompletion_def)
next
  case (Some error)
  then show ?thesis by (simp add: waitForCompletion_def)
qed

theorem waitForCompletion_fetch_before_deadline_witness:
  "wait_result (waitForCompletion ''task-1'' zero_wait (scripted 0 [seen COMPLETED 5])) =
     Some (Inr (task_record COMPLETED))
   \<and> wait_events (waitForCompletion ''task-1'' zero_wait (scripted 0 [seen PENDING 0])) =
       [Poll (Inr (task_record PENDING)), Update (task_record PENDING), DeadlineCheck 0]
   \<and> wait_result (waitForCompletion ''task-1'' zero_wait (scripted 0 [seen PENDING 0])) =
       Some (Inl (ApiError (poll_timeout_error ''task-1'' 0 PENDING)))"
proof -
  have done_events: "wait_events (waitForCompletion ''task-1'' zero_wait (scripted 0 [seen COMPLETED 5])) =
      [Poll (Inr (task_record COMPLETED)), Update (task_record COMPLETED)]"
    by (simp add: wait_eval)
  have stops: "is_stopping zero_wait (status (task_record COMPLETED))"
    by (simp add: wait_eval)
  have late_events: "wait_events (waitForCompletion ''task-1'' zero_wait (scripted 0 [seen PENDING 0])) =
      [Poll (Inr (task_record PENDING)), Update (task_record PENDING), DeadlineCheck 0]"
    by (simp add: wait_eval)
  have late_exit: "wait_exit (waitForCompletion ''task-1'' zero_wait (scripted 0 [seen PENDING 0])) =
      Some DeadlinePassed"
    by (simp add: wait_eval)
  have m: "nullish_or (maxWaitTimeMs zero_wait) DEFAULT_MAX_WAIT_TIME_MS = 0"
    by (simp add: zero_wait_def nullish_or_def)
  have s: "status (task_record PENDING) = PENDING"
    by (simp add: task_record_def)
  show ?thesis
    using waitForCompletion_fetch_before_deadline
        [of "''task-1''" zero_wait "scripted 0 [seen COMPLETED 5]"]
      waitForCompletion_fetch_before_deadline
        [of "''task-1''" zero_wait "scripted 0 [seen PENDING 0]"]
      done_events stops late_events late_exit
    by (simp add: m s)
qed

section \<open>Properties of the approval operations\<close>

text \<open>
  Claim C9. A rejection without a message (absent or empty) fails locally: no transport
  request is issued and the error is a plain \<^verbatim>\<open>Error\<close>, not a \<^verbatim>\<open>WorkflowAPIError\<close>. Its message
  asks for the message, unless the task id is blank, in which case the check of the task id,
  which comes first, has already failed in the same local way.
\<close>

theorem continueTask_reject_requires_message:
  assumes "decision = REJECT" and "msg = None \<or> msg = Some []"
  shows "requests (continueTask tid decision msg http) = []
    \<and> result (continueTask tid decision msg http) =
        Inl (JsError (if trim tid = [] then ''taskId must be a non-empty string''
                      else ''message is required when decision is REJECT''))
    \<and> (\<forall>e. result (continueTask tid decision msg http) \<noteq> Inl (ApiError e))"
proof (cases "trim tid = []")
  case True
  then show ?thesis by (simp add: continueTask_def assertString_def)
next
  case False
  then show ?thesis using assms by (auto simp: continueTask_def assertString_def)
qed

theorem continueTask_reject_requires_message_witness:
  "requests (continueTask ''task-1'' REJECT None (Inr (task_record RUNNING))) = []
   \<and> result (continueTask ''task-1'' REJECT None (Inr (task_record RUNNING))) =
       Inl (JsError ''message is required when decision is REJECT'')
   \<and> requests (continueTask ''task-1'' REJECT (Some []) (Inr (task_record RUNNING))) = []"
  using continueTask_reject_requires_message
      [of REJECT None "''task-1''" "Inr (task_record RUNNING)"]
    continueTask_reject_requires_message
      [of REJECT "Some []" "''task-1''" "Inr (task_record RUNNING)"]
  by (simp add: trim_def isWhitespace_def)

subsection \<open>The resume loop\<close>

lemma resume_loop_Nil: "resume_loop wopts tid True [] = unfinished"
  by (subst resume_loop.simps) simp

lemma resume_loop_Cons:
  "resume_loop wopts tid True (env # rest) =
     (let w = waitForCompletion tid (wopts\<lparr>exitOnWaiting := Some True\<rparr>) (wait_script env) in
      case wait_result w of
        None \<Rightarrow> unfinished\<lparr>waits := [w]\<rparr>
      | Some (Inl error) \<Rightarrow> (leave WaitFailed (Inl error))\<lparr>waits := [w]\<rparr>
      | Some (Inr current) \<Rightarrow>
          if status current \<noteq> WAITING
          then (leave ReturnedNotWaiting (Inr current))\<lparr>waits := [w]\<rparr>
          else if \<not> onWaiting_answer env
          then (leave ReturnedDeclined (Inr current))
                 \<lparr>waits := [w], onWaiting_calls := [(current, False)]\<rparr>
          else (let later = resume_loop wopts tid True rest in
                later\<lparr>waits := w # waits later,
                      onWaiting_calls := (current, True) # onWaiting_calls later\<rparr>))"
  by (subst resume_loop.simps) (simp add: Let_def split: option.splits sum.splits)

lemma resume_loop_returns:
  "exit_point (resume_loop wopts tid True envs) \<noteq> Some FellOffLoop
   \<and> (\<forall>rec. final (resume_loop wopts tid True envs) = Some (Inr rec) \<longrightarrow>
        waits (resume_loop wopts tid True envs) \<noteq> []
        \<and> wait_result (last (waits (resume_loop wopts tid True envs))) = Some (Inr rec)
        \<and> (exit_point (resume_loop wopts tid True envs) = Some ReturnedNotWaiting
             \<and> status rec \<noteq> WAITING
           \<or> exit_point (resume_loop wopts tid True envs) = Some ReturnedDeclined
             \<and> status rec = WAITING
             \<and> onWaiting_calls (resume_loop wopts tid True envs) \<noteq> []
             \<and> last (onWaiting_calls (resume_loop wopts tid True envs)) = (rec, False)))"
proof (induction envs)
  case Nil
  show ?case by (simp add: resume_loop_Nil unfinished_def)
next
  case (Cons env envs)
  let ?w = "waitForCompletion tid (wopts\<lparr>exitOnWaiting := Some True\<rparr>) (wait_script env)"
  show ?case
  proof (cases "wait_result ?w")
    case None
    then show ?thesis by (simp add: resume_loop_Cons unfinished_def)
  next
    case (Some res)
    show ?thesis
    proof (cases res)
      case (Inl error)
      then show ?thesis using Some by (simp add: resume_loop_Cons leave_def)
    next
      case (Inr current)
      show ?thesis
      proof (cases "status current = WAITING")
        case False
        then show ?thesis using Some Inr by (simp add: resume_loop_Cons leave_def)
      next
        case True
        note waiting = this
        show ?thesis
        proof (cases "onWaiting_answer env")
          case False
          then show ?thesis using Some Inr waiting by (simp add: resume_loop_Cons leave_def)
        next
          case True
          then show ?thesis
            using Some Inr waiting Cons.IH by (auto simp: resume_loop_Cons Let_def)
        qed
      qed
    qed
  qed
qed

text \<open>
  Claim C7. With a pause handler supplied, the resume loop is only ever left through one
  of its two \<^verbatim>\<open>return\<close> statements (or by an error of the wait): a call that returns a record
  returns the result of its last wait, either a record that is not \<open>WAITING\<close>, or the
  \<open>WAITING\<close> record that the handler, called last on it, answered with \<^verbatim>\<open>false\<close>. The \<^verbatim>\<open>throw\<close>
  after the loop is never reached, for any input, any world and any answers of the handler.
\<close>

theorem executeAndWait_never_falls_off_loop:
  "exit_point (executeAndWait inp opts world) \<noteq> Some FellOffLoop
   \<and> (onWaiting opts \<longrightarrow>
       (\<forall>rec. final (executeAndWait inp opts world) = Some (Inr rec) \<longrightarrow>
        waits (executeAndWait inp opts world) \<noteq> []
        \<and> wait_result (last (waits (executeAndWait inp opts world))) = Some (Inr rec)
        \<and> (exit_point (executeAndWait inp opts world) = Some ReturnedNotWaiting
             \<and> status rec \<noteq> WAITING
           \<or> exit_point (executeAndWait inp opts world) = Some ReturnedDeclined
             \<and> status rec = WAITING
             \<and> onWaiting_calls (executeAndWait inp opts world) \<noteq> []
             \<and> last (onWaiting_calls (executeAndWait inp opts world)) = (rec, False))))"
proof (cases "result (executeWorkflow inp (trigger_response world))")
  case (Inl error)
  then show ?thesis by (simp add: executeAndWait_def leave_def)
next
  case (Inr started)
  show ?thesis
  proof (cases "onWaiting opts")
    case True
    then show ?thesis
      using Inr resume_loop_returns [of "waitOptions opts" "taskId started" "resumes world"]
      by (simp add: executeAndWait_def Let_def)
  next
    case False
    then show ?thesis
      using Inr
      by (simp add: executeAndWait_def Let_def unfinished_def split: list.splits option.splits)
  qed
qed

lemmas execute_eval =
  executeAndWait_def executeWorkflow_def ensureSerializable_def workflow_one_def approving_def
  approval_world_def declining_world_def resume_loop_Nil resume_loop_Cons leave_def
  unfinished_def optional_property_def

theorem executeAndWait_never_falls_off_loop_witness:
  "final (executeAndWait workflow_one approving approval_world) = Some (Inr (task_record COMPLETED))
   \<and> exit_point (executeAndWait workflow_one approving approval_world) = Some ReturnedNotWaiting
   \<and> final (executeAndWait workflow_one approving declining_world) = Some (Inr (task_record WAITING))
   \<and> exit_point (executeAndWait workflow_one approving declining_world) = Some ReturnedDeclined"
proof -
  have a: "final (executeAndWait workflow_one approving approval_world) =
      Some (Inr (task_record COMPLETED))"
    by (simp add: execute_eval wait_eval)
  have d: "final (executeAndWait workflow_one approving declining_world) =
      Some (Inr (task_record WAITING))"
    by (simp add: execute_eval wait_eval)
  have h: "onWaiting approving" by (simp add: approving_def)
  have s: "status (task_record COMPLETED) \<noteq> WAITING" "status (task_record WAITING) = WAITING"
    by (simp_all add: task_record_def)
  show ?thesis
    using executeAndWait_never_falls_off_loop [of workflow_one approving approval_world]
      executeAndWait_never_falls_off_loop [of workflow_one approving declining_world]
      a d h s
    by auto
qed

section \<open>Cancellation by the caller\<close>


lemma abortedError_unchanged:
  "abortedError (DOMException ''AbortError'' m) = DOMException ''AbortError'' m"
  by simp







end
